theory Spec2Isabelle
  imports Main "HOL-Library.Word"
begin

section \<open>Data model of \<^verbatim>\<open>mhealthx/io_data.py\<close>\<close>

subsection \<open>Python values and errors\<close>

text \<open>
  The value handed in as \<^verbatim>\<open>download_limit\<close>. Python decides by \<^verbatim>\<open>type(x) != int\<close>,
  so the model keeps the type tag: \<^verbatim>\<open>None\<close>, an \<^verbatim>\<open>int\<close> (unbounded), a \<^verbatim>\<open>bool\<close>
  (whose type is \<^verbatim>\<open>bool\<close>, not \<^verbatim>\<open>int\<close>), a \<^verbatim>\<open>float\<close> (its 64 bits) or a \<^verbatim>\<open>str\<close>.
\<close>

datatype py_value = PyNone | PyInt int | PyBool bool | PyFloat "64 word" | PyStr string

text \<open>
  Failures of the remote table service and of its client library are values of
  \<open>collaborator_error\<close>; the module catches none of them.
\<close>

datatype collaborator_error =
  AuthenticationError | NotFound | SchemaInferenceError | TransferError

text \<open>
  A \<^verbatim>\<open>KeyError\<close> carries the lookup that failed: a column name of a DataFrame, an
  integer key looked up among the columns of a sub-frame, or a field of a dict.
\<close>

datatype lookup = ColumnKey string | RowKey nat | FieldKey string

datatype error =
    KeyError lookup
  | IndexError nat
  | TypeError
  | ValueError
  | InvalidIndexError
  | Collaborator collaborator_error

type_synonym pydict = "(string \<times> string) list"

definition dict_getitem :: "pydict \<Rightarrow> string \<Rightarrow> error + string" where
  "dict_getitem d k = (case map_of d k of None \<Rightarrow> Inl (KeyError (FieldKey k)) | Some v \<Rightarrow> Inr v)"

subsection \<open>The pandas DataFrame\<close>

text \<open>
  A cell is the missing marker \<^verbatim>\<open>NaN\<close>, a number (a file identifier in a file column)
  or a string. A row label is a string (the client labels the rows of a query result
  with the service's row id and version) or an integer (after
  \<^verbatim>\<open>table_data.index = range(n)\<close>). A frame is its row index and its columns in
  order; pandas allows two columns of one name, so the columns are an association list.
\<close>

datatype cell = NaN | Num int | Str string

datatype label = StrLabel string | IntLabel int

record frame =
  index :: "label list"
  columns :: "(string \<times> cell list) list"

definition wf_frame :: "frame \<Rightarrow> bool" where
  "wf_frame td = list_all (\<lambda>c. length (snd c) = length (index td)) (columns td)"

definition shape0 :: "frame \<Rightarrow> nat" where
  "shape0 td = length (index td)"

definition column_names_of :: "frame \<Rightarrow> string list" where
  "column_names_of td = map fst (columns td)"

text \<open>
  \<^verbatim>\<open>table_data[column_name]\<close>: a \<^verbatim>\<open>KeyError\<close> when no column has the name, the column
  as a Series when one has, and a sub-frame of all of them when several have.
\<close>

datatype selection = Series "cell list" | SubFrame "cell list list"

definition df_getitem :: "frame \<Rightarrow> string \<Rightarrow> error + selection" where
  "df_getitem td column_name =
     (case filter (\<lambda>c. fst c = column_name) (columns td) of
        [] \<Rightarrow> Inl (KeyError (ColumnKey column_name))
      | [c] \<Rightarrow> Inr (Series (snd c))
      | c # d # cs \<Rightarrow> Inr (SubFrame (map snd (c # d # cs))))"

text \<open>
  \<^verbatim>\<open>column_data[irow]\<close>. The rows of a query result are labelled by row-id strings (or
  by the default 0..N-1), so an integer key addresses the row at that position and
  fails past the last row. On a sub-frame the integer is looked up among the column
  names and is not found.
\<close>

fun selection_getitem :: "selection \<Rightarrow> nat \<Rightarrow> error + cell" where
  "selection_getitem (Series cells) irow =
     (if irow < length cells then Inr (cells ! irow) else Inl (IndexError irow))"
| "selection_getitem (SubFrame cols) irow = Inl (KeyError (RowKey irow))"

text \<open>\<^verbatim>\<open>np.isnan\<close>: defined on numbers, a \<^verbatim>\<open>TypeError\<close> on a string.\<close>

fun np_isnan :: "cell \<Rightarrow> error + bool" where
  "np_isnan NaN = Inr True"
| "np_isnan (Num n) = Inr False"
| "np_isnan (Str s) = Inl TypeError"

text \<open>
  \<^verbatim>\<open>del table_data[remove_column]\<close>: removes every column of that name, a
  \<^verbatim>\<open>KeyError\<close> when there is none.
\<close>

definition df_delitem :: "frame \<Rightarrow> string \<Rightarrow> error + frame" where
  "df_delitem td remove_column =
     (if remove_column \<in> set (column_names_of td)
      then Inr (td\<lparr>columns := filter (\<lambda>c. fst c \<noteq> remove_column) (columns td)\<rparr>)
      else Inl (KeyError (ColumnKey remove_column)))"

text \<open>\<^verbatim>\<open>table_data.index = range(table_data.shape[0])\<close>\<close>

definition reset_index :: "frame \<Rightarrow> frame" where
  "reset_index td = td\<lparr>index := map (\<lambda>i. IntLabel (int i)) [0..<shape0 td]\<rparr>"

text \<open>
  \<^verbatim>\<open>pd.concat(frames, axis=1)\<close>: the columns of all frames side by side, in order,
  duplicates kept. No frame at all is a \<^verbatim>\<open>ValueError\<close>. When every frame has the row
  index of the first, that index is the result's and no cell moves. Otherwise the
  rows are the union of the labels (an outer join, here in order of first
  appearance; no theorem below depends on that order), a cell a frame lacks is
  \<^verbatim>\<open>NaN\<close>, and a frame with repeated labels cannot be aligned.
\<close>

definition first_seen :: "'a list \<Rightarrow> 'a list" where
  "first_seen xs = rev (remdups (rev xs))"

definition align :: "label list \<Rightarrow> label list \<Rightarrow> cell list \<Rightarrow> cell list" where
  "align new_index old_index cells =
     map (\<lambda>l. case map_of (zip old_index cells) l of None \<Rightarrow> NaN | Some c \<Rightarrow> c) new_index"

definition pd_concat :: "frame list \<Rightarrow> error + frame" where
  "pd_concat frames =
     (case frames of
        [] \<Rightarrow> Inl ValueError
      | f # fs \<Rightarrow>
          if list_all (\<lambda>g. index g = index f) fs
          then Inr \<lparr>index = index f, columns = concat (map columns frames)\<rparr>
          else if list_ex (\<lambda>g. \<not> distinct (index g)) frames then Inl InvalidIndexError
          else let ix = first_seen (concat (map index frames)) in
               Inr \<lparr>index = ix,
                    columns = concat (map (\<lambda>g. map (\<lambda>c. (fst c, align ix (index g) (snd c)))
                                                    (columns g)) frames)\<rparr>)"

subsection \<open>The Synapse client\<close>

text \<open>
  \<^verbatim>\<open>Column(name=..., columnType=...)\<close> and \<^verbatim>\<open>Schema(name=..., columns=..., parent=...,
  includeRowIdAndRowVersion=...)\<close>, the last argument optional; a schema the service
  has stored carries an id.
\<close>

record column =
  col_name :: string
  columnType :: string

record table_schema =
  schema_id :: "string option"
  schema_name :: string
  schema_columns :: "column list"
  schema_parent :: string
  includeRowIdAndRowVersion :: "bool option"

definition Column :: "string \<Rightarrow> string \<Rightarrow> column" where
  "Column name column_type = \<lparr>col_name = name, columnType = column_type\<rparr>"

definition Schema :: "string \<Rightarrow> column list \<Rightarrow> string \<Rightarrow> bool option \<Rightarrow> table_schema" where
  "Schema name cols parent flag =
     \<lparr>schema_id = None, schema_name = name, schema_columns = cols, schema_parent = parent,
      includeRowIdAndRowVersion = flag\<rparr>"

text \<open>The requests the module sends, in the order it sends them.\<close>

datatype request =
    Login "(string \<times> string) option"
  | Get string
  | TableQuery string
  | DownloadTableFile table_schema nat nat string string
  | ChunkedUploadFile string
  | StoreSchema table_schema
  | StoreTable table_schema frame
  | StoreRowSet "column list" table_schema "string list list"

text \<open>
  The client and the service behind it are an opaque collaborator: the model takes
  its answers as given (one field per call the module makes) and records every
  request in \<open>log\<close>. The answers are not constrained: any call may fail.
\<close>

record synapse =
  login_response :: "(string \<times> string) option \<Rightarrow> collaborator_error option"
  get_response :: "string \<Rightarrow> collaborator_error + table_schema"
  tableQuery_response :: "string \<Rightarrow> collaborator_error + frame"
  downloadTableFile_response ::
    "table_schema \<Rightarrow> nat \<Rightarrow> nat \<Rightarrow> string \<Rightarrow> string \<Rightarrow> collaborator_error + pydict option"
  chunkedUploadFile_response :: "string \<Rightarrow> collaborator_error + pydict"
  as_table_columns_response :: "frame \<Rightarrow> collaborator_error + column list"
  store_schema_response :: "table_schema \<Rightarrow> collaborator_error + table_schema"
  store_table_response :: "table_schema \<Rightarrow> frame \<Rightarrow> collaborator_error option"
  store_rowset_response ::
    "column list \<Rightarrow> table_schema \<Rightarrow> string list list \<Rightarrow> collaborator_error option"
  log :: "request list"

type_synonym 'a call = "(error + 'a) \<times> synapse"

text \<open>An exception ends the function where it is raised; what was sent stays sent.\<close>

definition and_then :: "'a call \<Rightarrow> ('a \<Rightarrow> synapse \<Rightarrow> 'b call) \<Rightarrow> 'b call" where
  "and_then r f = (case r of (Inl e, syn) \<Rightarrow> (Inl e, syn) | (Inr a, syn) \<Rightarrow> f a syn)"

definition sent :: "request \<Rightarrow> synapse \<Rightarrow> synapse" where
  "sent r syn = syn\<lparr>log := log syn @ [r]\<rparr>"

definition answer :: "collaborator_error + 'a \<Rightarrow> error + 'a" where
  "answer r = (case r of Inl e \<Rightarrow> Inl (Collaborator e) | Inr a \<Rightarrow> Inr a)"

definition done_or :: "collaborator_error option \<Rightarrow> error + unit" where
  "done_or r = (case r of Some e \<Rightarrow> Inl (Collaborator e) | None \<Rightarrow> Inr ())"

text \<open>
  \<^verbatim>\<open>if username and password: syn.login(username, password) else: syn.login()\<close>
\<close>

definition credentials :: "string \<Rightarrow> string \<Rightarrow> (string \<times> string) option" where
  "credentials username password =
     (if username \<noteq> [] \<and> password \<noteq> [] then Some (username, password) else None)"

definition login :: "string \<Rightarrow> string \<Rightarrow> synapse \<Rightarrow> unit call" where
  "login username password syn =
     (done_or (login_response syn (credentials username password)),
      sent (Login (credentials username password)) syn)"

definition get :: "string \<Rightarrow> synapse \<Rightarrow> table_schema call" where
  "get entity syn = (answer (get_response syn entity), sent (Get entity) syn)"

definition tableQuery :: "string \<Rightarrow> synapse \<Rightarrow> frame call" where
  "tableQuery query syn = (answer (tableQuery_response syn query), sent (TableQuery query) syn)"

definition downloadTableFile ::
  "table_schema \<Rightarrow> nat \<Rightarrow> nat \<Rightarrow> string \<Rightarrow> string \<Rightarrow> synapse \<Rightarrow> (pydict option) call" where
  "downloadTableFile schema rowId versionNumber column downloadLocation syn =
     (answer (downloadTableFile_response syn schema rowId versionNumber column downloadLocation),
      sent (DownloadTableFile schema rowId versionNumber column downloadLocation) syn)"

definition chunkedUploadFile :: "string \<Rightarrow> synapse \<Rightarrow> pydict call" where
  "chunkedUploadFile in_file syn =
     (answer (chunkedUploadFile_response syn in_file), sent (ChunkedUploadFile in_file) syn)"

definition as_table_columns :: "frame \<Rightarrow> synapse \<Rightarrow> (column list) call" where
  "as_table_columns td syn = (answer (as_table_columns_response syn td), syn)"

definition store_schema :: "table_schema \<Rightarrow> synapse \<Rightarrow> table_schema call" where
  "store_schema schema syn =
     (answer (store_schema_response syn schema), sent (StoreSchema schema) syn)"

definition store_table :: "table_schema \<Rightarrow> frame \<Rightarrow> synapse \<Rightarrow> unit call" where
  "store_table schema td syn =
     (done_or (store_table_response syn schema td), sent (StoreTable schema td) syn)"

definition store_rowset ::
  "column list \<Rightarrow> table_schema \<Rightarrow> string list list \<Rightarrow> synapse \<Rightarrow> unit call" where
  "store_rowset cols schema rows syn =
     (done_or (store_rowset_response syn cols schema rows), sent (StoreRowSet cols schema rows) syn)"

definition select_all :: "string \<Rightarrow> string" where
  "select_all synapse_table_id = ''select * from '' @ synapse_table_id"

section \<open>The five operations\<close>

subsection \<open>\<^verbatim>\<open>read_synapse_table_files\<close>\<close>

text \<open>
  The body of the row loop (lines 86 to 100): \<^verbatim>\<open>None\<close> for a missing cell, otherwise
  the download, then the path of a truthy \<^verbatim>\<open>fileinfo\<close> (a \<^verbatim>\<open>KeyError\<close> when it has no
  \<^verbatim>\<open>'path'\<close>) or \<^verbatim>\<open>''\<close> for \<^verbatim>\<open>None\<close> and for the empty dict.
\<close>

definition resolve_row ::
  "table_schema \<Rightarrow> string \<Rightarrow> string \<Rightarrow> selection \<Rightarrow> nat \<Rightarrow> synapse \<Rightarrow> (string option) call" where
  "resolve_row schema column_name out_path column_data irow syn =
     (case selection_getitem column_data irow of
        Inl e \<Rightarrow> (Inl e, syn)
      | Inr c \<Rightarrow>
         (case np_isnan c of
            Inl e \<Rightarrow> (Inl e, syn)
          | Inr True \<Rightarrow> (Inr None, syn)
          | Inr False \<Rightarrow>
              and_then (downloadTableFile schema irow 0 column_name out_path syn)
                (\<lambda>fileinfo syn.
                   case fileinfo of
                     None \<Rightarrow> (Inr (Some ''''), syn)
                   | Some [] \<Rightarrow> (Inr (Some ''''), syn)
                   | Some (kv # kvs) \<Rightarrow>
                       (case dict_getitem (kv # kvs) ''path'' of
                          Inl e \<Rightarrow> (Inl e, syn)
                        | Inr p \<Rightarrow> (Inr (Some p), syn)))))"

text \<open>\<^verbatim>\<open>for irow in range(download_limit)\<close>, appending to \<^verbatim>\<open>files_per_column\<close>.\<close>

fun rows_loop ::
  "table_schema \<Rightarrow> string \<Rightarrow> string \<Rightarrow> selection \<Rightarrow> nat list \<Rightarrow> string option list \<Rightarrow>
   synapse \<Rightarrow> (string option list) call" where
  "rows_loop schema column_name out_path column_data [] files_per_column syn =
     (Inr files_per_column, syn)"
| "rows_loop schema column_name out_path column_data (irow # rest) files_per_column syn =
     and_then (resolve_row schema column_name out_path column_data irow syn)
       (\<lambda>entry syn.
          rows_loop schema column_name out_path column_data rest (files_per_column @ [entry]) syn)"

text \<open>\<^verbatim>\<open>range(n)\<close> for a Python int: empty when \<open>n \<le> 0\<close>.\<close>

definition py_range :: "int \<Rightarrow> nat list" where
  "py_range n = [0..<nat n]"

text \<open>\<^verbatim>\<open>for column_name in column_names\<close>, appending to \<^verbatim>\<open>downloaded_files\<close>.\<close>

fun columns_loop ::
  "table_schema \<Rightarrow> frame \<Rightarrow> string \<Rightarrow> int \<Rightarrow> string list \<Rightarrow> string option list list \<Rightarrow>
   synapse \<Rightarrow> (string option list list) call" where
  "columns_loop schema table_data out_path download_limit [] downloaded_files syn =
     (Inr downloaded_files, syn)"
| "columns_loop schema table_data out_path download_limit (column_name # rest)
     downloaded_files syn =
     (case df_getitem table_data column_name of
        Inl e \<Rightarrow> (Inl e, syn)
      | Inr column_data \<Rightarrow>
          and_then (rows_loop schema column_name out_path column_data
                      (py_range download_limit) [] syn)
            (\<lambda>files_per_column syn.
               columns_loop schema table_data out_path download_limit rest
                 (downloaded_files @ [files_per_column]) syn))"

text \<open>
  \<^verbatim>\<open>if type(download_limit) != int: download_limit = table_data.shape[0]\<close>
\<close>

definition row_limit :: "py_value \<Rightarrow> frame \<Rightarrow> int" where
  "row_limit download_limit table_data =
     (case download_limit of PyInt n \<Rightarrow> n | _ \<Rightarrow> int (shape0 table_data))"

definition read_synapse_table_files ::
  "string \<Rightarrow> string list \<Rightarrow> py_value \<Rightarrow> string \<Rightarrow> string \<Rightarrow> string \<Rightarrow> synapse \<Rightarrow>
   (frame \<times> string option list list) call" where
  "read_synapse_table_files synapse_table_id column_names download_limit out_path
     username password syn =
     and_then (login username password syn) (\<lambda>_ syn.
     and_then (get synapse_table_id syn) (\<lambda>schema syn.
     and_then (tableQuery (select_all synapse_table_id) syn) (\<lambda>table_data syn.
       if column_names \<noteq> []
       then and_then (columns_loop schema table_data out_path
                        (row_limit download_limit table_data) column_names [] syn)
              (\<lambda>downloaded_files syn. (Inr (table_data, downloaded_files), syn))
       else (Inr (table_data, []), syn))))"

subsection \<open>\<^verbatim>\<open>copy_synapse_table\<close>\<close>

text \<open>\<^verbatim>\<open>for remove_column in remove_columns: del table_data[remove_column]\<close>\<close>

fun remove_loop :: "frame \<Rightarrow> string list \<Rightarrow> error + frame" where
  "remove_loop table_data [] = Inr table_data"
| "remove_loop table_data (remove_column # rest) =
     (case df_delitem table_data remove_column of
        Inl e \<Rightarrow> Inl e
      | Inr table_data' \<Rightarrow> remove_loop table_data' rest)"

definition copy_synapse_table ::
  "string \<Rightarrow> string \<Rightarrow> string \<Rightarrow> string list \<Rightarrow> string \<Rightarrow> string \<Rightarrow> synapse \<Rightarrow>
   (frame \<times> string \<times> string) call" where
  "copy_synapse_table synapse_table_id synapse_project_id table_name remove_columns
     username password syn =
     and_then (login username password syn) (\<lambda>_ syn.
     and_then (tableQuery (select_all synapse_table_id) syn) (\<lambda>table_data syn.
     and_then (if remove_columns \<noteq> [] then remove_loop table_data remove_columns
               else Inr table_data, syn) (\<lambda>table_data syn.
     let table_data = reset_index table_data in
     and_then (as_table_columns table_data syn) (\<lambda>cols syn.
     let schema = Schema table_name cols synapse_project_id (Some False) in
     and_then (store_table schema table_data syn) (\<lambda>_ syn.
       (Inr (table_data, table_name, synapse_project_id), syn))))))"

subsection \<open>\<^verbatim>\<open>write_synapse_table\<close>\<close>

definition write_synapse_table ::
  "frame \<Rightarrow> string \<Rightarrow> string \<Rightarrow> string \<Rightarrow> string \<Rightarrow> synapse \<Rightarrow> unit call" where
  "write_synapse_table table_data synapse_project_id table_name username password syn =
     and_then (login username password syn) (\<lambda>_ syn.
     let table_data = reset_index table_data in
     and_then (as_table_columns table_data syn) (\<lambda>cols syn.
     let schema = Schema table_name cols synapse_project_id (Some False) in
     store_table schema table_data syn))"

subsection \<open>\<^verbatim>\<open>files_to_synapse_table\<close>\<close>

text \<open>
  \<^verbatim>\<open>for in_file in in_files\<close>: upload, then append the one-element row
  \<^verbatim>\<open>[file_handle['id']]\<close>.
\<close>

fun upload_loop :: "string list \<Rightarrow> string list list \<Rightarrow> synapse \<Rightarrow> (string list list) call" where
  "upload_loop [] files_handles syn = (Inr files_handles, syn)"
| "upload_loop (in_file # rest) files_handles syn =
     and_then (chunkedUploadFile in_file syn) (\<lambda>file_handle syn.
       case dict_getitem file_handle ''id'' of
         Inl e \<Rightarrow> (Inl e, syn)
       | Inr h \<Rightarrow> upload_loop rest (files_handles @ [[h]]) syn)"

definition files_to_synapse_table ::
  "string list \<Rightarrow> string \<Rightarrow> string \<Rightarrow> string \<Rightarrow> string \<Rightarrow> string \<Rightarrow> synapse \<Rightarrow> unit call" where
  "files_to_synapse_table in_files synapse_project_id table_name column_name
     username password syn =
     and_then (login username password syn) (\<lambda>_ syn.
     and_then (upload_loop in_files [] syn) (\<lambda>files_handles syn.
     let new_column_header = Column column_name ''FILEHANDLEID'' in
     and_then (store_schema (Schema table_name [new_column_header] synapse_project_id None) syn)
       (\<lambda>schema syn.
     store_rowset [new_column_header] schema files_handles syn)))"

subsection \<open>\<^verbatim>\<open>concatenate_tables_to_synapse_table\<close>\<close>

definition concatenate_tables_to_synapse_table ::
  "frame list \<Rightarrow> string \<Rightarrow> string \<Rightarrow> string \<Rightarrow> string \<Rightarrow> synapse \<Rightarrow> (frame \<times> string) call" where
  "concatenate_tables_to_synapse_table frames synapse_project_id table_name
     username password syn =
     and_then (login username password syn) (\<lambda>_ syn.
     and_then (pd_concat frames, syn) (\<lambda>table_data syn.
     and_then (as_table_columns table_data syn) (\<lambda>cols syn.
     let schema = Schema table_name cols synapse_project_id None in
     and_then (store_table schema table_data syn) (\<lambda>_ syn.
       (Inr (table_data, synapse_project_id), syn)))))"

section \<open>Notions used in the statements and proofs\<close>

text \<open>
  \<open>extends syn syn'\<close>: the later state is the earlier one with more requests logged;
  the collaborator's answers are the same.
\<close>

definition extends :: "synapse \<Rightarrow> synapse \<Rightarrow> bool" where
  "extends syn syn' = (\<exists>reqs. syn' = syn\<lparr>log := log syn @ reqs\<rparr>)"

fun is_download :: "request \<Rightarrow> bool" where
  "is_download (DownloadTableFile s r v c d) = True"
| "is_download _ = False"

text \<open>\<^verbatim>\<open>type(download_limit) == int\<close>\<close>

fun exact_int :: "py_value \<Rightarrow> bool" where
  "exact_int (PyInt n) = True"
| "exact_int _ = False"

text \<open>
  The row index is 0..N-1; the tables among the requests of a log, in order.
\<close>

definition contiguous :: "frame \<Rightarrow> bool" where
  "contiguous td = (index td = map (\<lambda>i. IntLabel (int i)) [0..<length (index td)])"

fun stored_tables :: "request list \<Rightarrow> frame list" where
  "stored_tables [] = []"
| "stored_tables (StoreTable schema td # rs) = td # stored_tables rs"
| "stored_tables (r # rs) = stored_tables rs"

text \<open>
  When the row loop gets through a cell and through a column: the cell is the missing
  marker, or a number whose download the service answers with no file info or with a
  file info that has a \<^verbatim>\<open>'path'\<close>; the column is there once, has a row for every
  index below the limit, and each of these cells is such a cell (a name that several
  columns have gets through only when there is no row to read).
\<close>

definition resolvable_cell ::
  "synapse \<Rightarrow> table_schema \<Rightarrow> string \<Rightarrow> string \<Rightarrow> cell \<Rightarrow> nat \<Rightarrow> bool" where
  "resolvable_cell syn schema column_name out_path c irow =
     (case c of
        NaN \<Rightarrow> True
      | Str s \<Rightarrow> False
      | Num n \<Rightarrow>
          (case downloadTableFile_response syn schema irow 0 column_name out_path of
             Inl e \<Rightarrow> False
           | Inr None \<Rightarrow> True
           | Inr (Some kvs) \<Rightarrow> kvs = [] \<or> map_of kvs ''path'' \<noteq> None))"

definition resolvable_column ::
  "synapse \<Rightarrow> table_schema \<Rightarrow> frame \<Rightarrow> string \<Rightarrow> int \<Rightarrow> string \<Rightarrow> bool" where
  "resolvable_column syn schema table_data out_path download_limit column_name =
     (case df_getitem table_data column_name of
        Inl e \<Rightarrow> False
      | Inr (SubFrame cols) \<Rightarrow> download_limit \<le> 0
      | Inr (Series cells) \<Rightarrow>
          nat download_limit \<le> length cells \<and>
          list_all (\<lambda>irow. resolvable_cell syn schema column_name out_path (cells ! irow) irow)
            (py_range download_limit))"

text \<open>The upload of a file is answered with a file handle that has an \<^verbatim>\<open>'id'\<close>.\<close>

definition uploadable :: "synapse \<Rightarrow> string \<Rightarrow> bool" where
  "uploadable syn in_file =
     (case chunkedUploadFile_response syn in_file of
        Inl e \<Rightarrow> False
      | Inr file_handle \<Rightarrow> map_of file_handle ''id'' \<noteq> None)"

subsection \<open>A concrete table and service\<close>

text \<open>
  A table of three rows with a file column \<^verbatim>\<open>audio\<close> (the second row has no file) and a
  text column, and a service that accepts every login, knows the table as \<^verbatim>\<open>syn1\<close>,
  reports file info for row 0 only, and stores whatever it is handed.
\<close>

definition frame0 :: frame where
  "frame0 = \<lparr>index = [StrLabel ''1_0'', StrLabel ''2_0'', StrLabel ''3_0''],
             columns = [(''audio'', [Num 11, NaN, Num 13]),
                        (''note'', [Str ''a'', Str ''b'', Str ''c''])]\<rparr>"

definition schema0 :: table_schema where
  "schema0 = \<lparr>schema_id = Some ''syn1'', schema_name = ''T1'',
              schema_columns = [\<lparr>col_name = ''audio'', columnType = ''FILEHANDLEID''\<rparr>,
                                \<lparr>col_name = ''note'', columnType = ''STRING''\<rparr>],
              schema_parent = ''syn0'', includeRowIdAndRowVersion = None\<rparr>"

definition syn0 :: synapse where
  "syn0 = \<lparr>login_response = (\<lambda>c. None),
           get_response = (\<lambda>e. if e = ''syn1'' then Inr schema0 else Inl NotFound),
           tableQuery_response =
             (\<lambda>q. if q = ''select * from syn1'' then Inr frame0 else Inl NotFound),
           downloadTableFile_response =
             (\<lambda>s r v c d. if r = 0 then Inr (Some [(''path'', d @ ''/f0'')]) else Inr None),
           chunkedUploadFile_response = (\<lambda>f. Inr [(''id'', f)]),
           as_table_columns_response =
             (\<lambda>td. Inr (map (\<lambda>c. \<lparr>col_name = fst c, columnType = ''STRING''\<rparr>) (columns td))),
           store_schema_response = (\<lambda>s. Inr (s\<lparr>schema_id := Some ''syn9''\<rparr>)),
           store_table_response = (\<lambda>s td. None),
           store_rowset_response = (\<lambda>c s r. None),
           log = []\<rparr>"

text \<open>Two frames over the row index 1, 2.\<close>

definition df1 :: frame where
  "df1 = \<lparr>index = [IntLabel 1, IntLabel 2], columns = [(''A'', [Str ''A1'', Str ''A2''])]\<rparr>"

definition df2 :: frame where
  "df2 = \<lparr>index = [IntLabel 1, IntLabel 2],
          columns = [(''E'', [Str ''A5'', Str ''A6'']), (''F'', [Str ''B5'', Str ''B6''])]\<rparr>"

section \<open>Basic facts\<close>

subsection \<open>Sequencing and the request log\<close>

lemma and_then_Inl [simp]: "and_then (Inl e, syn) f = (Inl e, syn)"
  by (simp add: and_then_def)

lemma and_then_Inr [simp]: "and_then (Inr a, syn) f = f a syn"
  by (simp add: and_then_def)

lemma and_then_eq_Inr:
  "and_then r f = (Inr b, syn') \<longleftrightarrow> (\<exists>a syn1. r = (Inr a, syn1) \<and> f a syn1 = (Inr b, syn'))"
  by (cases r; cases "fst r") (auto simp: and_then_def)

lemma extends_refl [simp]: "extends syn syn"
  by (auto simp: extends_def intro: exI [of _ "[]"])

lemma extends_sent [simp]: "extends syn (sent r syn)"
  by (auto simp: extends_def sent_def)

lemma extends_trans: "extends a b \<Longrightarrow> extends b c \<Longrightarrow> extends a c"
  by (auto simp: extends_def)

lemma extends_log: "extends syn syn' \<Longrightarrow> set (log syn) \<subseteq> set (log syn')"
  by (auto simp: extends_def)

lemma extends_download:
  "extends syn syn' \<Longrightarrow> downloadTableFile_response syn' = downloadTableFile_response syn"
  by (auto simp: extends_def)

lemma log_sent [simp]: "log (sent r syn) = log syn @ [r]"
  by (simp add: sent_def)

lemma sent_responses [simp]:
  "login_response (sent r syn) = login_response syn"
  "get_response (sent r syn) = get_response syn"
  "tableQuery_response (sent r syn) = tableQuery_response syn"
  "downloadTableFile_response (sent r syn) = downloadTableFile_response syn"
  "chunkedUploadFile_response (sent r syn) = chunkedUploadFile_response syn"
  "as_table_columns_response (sent r syn) = as_table_columns_response syn"
  "store_schema_response (sent r syn) = store_schema_response syn"
  "store_table_response (sent r syn) = store_table_response syn"
  "store_rowset_response (sent r syn) = store_rowset_response syn"
  by (simp_all add: sent_def)

lemma and_then_assoc:
  "and_then (and_then r f) g = and_then r (\<lambda>a s. and_then (f a s) g)"
  by (cases r; cases "fst r") (auto simp: and_then_def)

lemma and_then_fst_Inl:
  "fst (and_then r f) = Inl e \<Longrightarrow>
     fst r = Inl e \<or> (\<exists>a syn1. r = (Inr a, syn1) \<and> fst (f a syn1) = Inl e)"
  by (cases r; cases "fst r") (auto simp: and_then_def)

subsection \<open>The loops of \<^verbatim>\<open>read_synapse_table_files\<close>\<close>

lemma resolve_row_extends:
  "resolve_row schema c out sel i syn = (r, syn') \<Longrightarrow> extends syn syn'"
  by (auto simp: resolve_row_def downloadTableFile_def answer_def
           split: sum.splits bool.splits option.splits list.splits)

lemma resolve_row_Inr:
  assumes "resolve_row schema c out sel i syn = (Inr entry, syn')"
  shows "\<exists>cells. sel = Series cells \<and> i < length cells \<and>
           (cells ! i = NaN \<longrightarrow> entry = None \<and> syn' = syn) \<and>
           (cells ! i \<noteq> NaN \<longrightarrow>
              syn' = sent (DownloadTableFile schema i 0 c out) syn \<and>
              (\<exists>fileinfo. downloadTableFile_response syn schema i 0 c out = Inr fileinfo \<and>
                 ((fileinfo = None \<or> fileinfo = Some []) \<and> entry = Some ''''
                  \<or> (\<exists>kvs p. fileinfo = Some kvs \<and> kvs \<noteq> [] \<and> map_of kvs ''path'' = Some p
                        \<and> entry = Some p))))"
proof (cases sel)
  case (Series cells)
  with assms have i: "i < length cells"
    by (auto simp: resolve_row_def split: if_splits)
  show ?thesis
  proof (cases "cells ! i")
    case NaN
    with assms Series i show ?thesis by (auto simp: resolve_row_def)
  next
    case (Num n)
    with assms Series i show ?thesis
      by (auto simp: resolve_row_def downloadTableFile_def answer_def dict_getitem_def
               split: sum.splits option.splits list.splits)
  next
    case (Str s)
    with assms Series i show ?thesis by (auto simp: resolve_row_def)
  qed
next
  case (SubFrame cols)
  with assms show ?thesis by (simp add: resolve_row_def)
qed

lemma rows_loop_Inr:
  "rows_loop schema c out sel rows acc syn = (Inr fs, syn') \<Longrightarrow>
     extends syn syn' \<and>
     (\<exists>es. fs = acc @ es \<and> length es = length rows \<and>
        (\<forall>k<length rows. \<exists>s1 s2. extends syn s1 \<and> extends s2 syn' \<and>
            resolve_row schema c out sel (rows ! k) s1 = (Inr (es ! k), s2)))"
proof (induction rows arbitrary: acc syn)
  case Nil
  then show ?case by simp
next
  case (Cons i rest)
  from Cons.prems obtain e s2 where
    step: "resolve_row schema c out sel i syn = (Inr e, s2)" and
    loop: "rows_loop schema c out sel rest (acc @ [e]) s2 = (Inr fs, syn')"
    by (auto simp: and_then_eq_Inr)
  have e1: "extends syn s2" using step by (rule resolve_row_extends)
  from Cons.IH [OF loop] obtain es where
    e2: "extends s2 syn'" and fs: "fs = (acc @ [e]) @ es" and len: "length es = length rest" and
    each: "\<forall>k<length rest. \<exists>s1 s3. extends s2 s1 \<and> extends s3 syn' \<and>
            resolve_row schema c out sel (rest ! k) s1 = (Inr (es ! k), s3)"
    by blast
  have "\<exists>s1 s3. extends syn s1 \<and> extends s3 syn' \<and>
           resolve_row schema c out sel ((i # rest) ! k) s1 = (Inr ((e # es) ! k), s3)"
    if "k < length (i # rest)" for k
  proof (cases k)
    case 0
    with step e2 show ?thesis
      by (intro exI [of _ syn] exI [of _ s2]) simp
  next
    case (Suc k')
    with that each obtain s1 s3 where "extends s2 s1" "extends s3 syn'"
      "resolve_row schema c out sel (rest ! k') s1 = (Inr (es ! k'), s3)" by auto
    with e1 Suc show ?thesis by (auto intro: extends_trans)
  qed
  with e1 e2 fs len show ?case
    by (intro conjI exI [of _ "e # es"]) (auto intro: extends_trans)
qed

lemma columns_loop_Inr:
  "columns_loop schema td out lim cs acc syn = (Inr fss, syn') \<Longrightarrow>
     extends syn syn' \<and>
     (\<exists>es. fss = acc @ es \<and> length es = length cs \<and>
        (\<forall>j<length cs. \<exists>sel s1 s2. df_getitem td (cs ! j) = Inr sel \<and>
            extends syn s1 \<and> extends s2 syn' \<and>
            rows_loop schema (cs ! j) out sel (py_range lim) [] s1 = (Inr (es ! j), s2)))"
proof (induction cs arbitrary: acc syn)
  case Nil
  then show ?case by simp
next
  case (Cons c rest)
  from Cons.prems obtain sel e s2 where
    sel: "df_getitem td c = Inr sel" and
    step: "rows_loop schema c out sel (py_range lim) [] syn = (Inr e, s2)" and
    loop: "columns_loop schema td out lim rest (acc @ [e]) s2 = (Inr fss, syn')"
    by (auto simp: and_then_eq_Inr split: sum.splits)
  have e1: "extends syn s2" using rows_loop_Inr [OF step] by simp
  from Cons.IH [OF loop] obtain es where
    e2: "extends s2 syn'" and fs: "fss = (acc @ [e]) @ es" and len: "length es = length rest" and
    each: "\<forall>j<length rest. \<exists>sel s1 s3. df_getitem td (rest ! j) = Inr sel \<and>
            extends s2 s1 \<and> extends s3 syn' \<and>
            rows_loop schema (rest ! j) out sel (py_range lim) [] s1 = (Inr (es ! j), s3)"
    by blast
  have "\<exists>sel s1 s3. df_getitem td ((c # rest) ! j) = Inr sel \<and> extends syn s1 \<and> extends s3 syn' \<and>
           rows_loop schema ((c # rest) ! j) out sel (py_range lim) [] s1 = (Inr ((e # es) ! j), s3)"
    if "j < length (c # rest)" for j
  proof (cases j)
    case 0
    with sel step e2 show ?thesis
      by (intro exI [of _ sel] exI [of _ syn] exI [of _ s2]) simp
  next
    case (Suc j')
    with that each obtain sel' s1 s3 where "df_getitem td (rest ! j') = Inr sel'"
      "extends s2 s1" "extends s3 syn'"
      "rows_loop schema (rest ! j') out sel' (py_range lim) [] s1 = (Inr (es ! j'), s3)" by auto
    with e1 Suc show ?thesis by (auto intro: extends_trans)
  qed
  with e1 e2 fs len show ?case
    by (intro conjI exI [of _ "e # es"]) (auto intro: extends_trans)
qed

lemma read_Inr:
  assumes "read_synapse_table_files tid cols dl out u p syn = (Inr (td, files), syn')"
      and "cols \<noteq> []"
  shows "\<exists>schema s3. get_response syn tid = Inr schema \<and>
           tableQuery_response syn (select_all tid) = Inr td \<and> extends syn s3 \<and>
           columns_loop schema td out (row_limit dl td) cols [] s3 = (Inr files, syn')"
proof -
  let ?s1 = "sent (Login (credentials u p)) syn"
  let ?s2 = "sent (Get tid) ?s1"
  let ?s3 = "sent (TableQuery (select_all tid)) ?s2"
  have ext: "extends syn ?s3"
    by (blast intro: extends_trans extends_sent)
  from assms obtain schema where g: "get_response syn tid = Inr schema"
    by (auto simp: read_synapse_table_files_def login_def get_def done_or_def answer_def
             split: option.splits sum.splits)
  from assms g have q: "tableQuery_response syn (select_all tid) = Inr td"
    by (auto simp: read_synapse_table_files_def login_def get_def tableQuery_def done_or_def
                   answer_def and_then_eq_Inr
             split: option.splits sum.splits)
  from assms g q have "columns_loop schema td out (row_limit dl td) cols [] ?s3 = (Inr files, syn')"
    by (auto simp: read_synapse_table_files_def login_def get_def tableQuery_def done_or_def
                   answer_def and_then_eq_Inr
             split: option.splits sum.splits)
  with g q ext show ?thesis by blast
qed

lemma py_range_length [simp]: "length (py_range n) = nat n"
  by (simp add: py_range_def)

lemma py_range_nth [simp]: "i < nat n \<Longrightarrow> py_range n ! i = i"
  by (simp add: py_range_def)

lemma read_entry:
  assumes "read_synapse_table_files tid cols dl out u p syn = (Inr (td, files), syn')"
      and "cols \<noteq> []" and "j < length cols" and "int i < row_limit dl td"
  shows "length files = length cols \<and> length (files ! j) = nat (row_limit dl td) \<and>
         (\<exists>schema sel s1 s2. get_response syn tid = Inr schema \<and>
            tableQuery_response syn (select_all tid) = Inr td \<and>
            df_getitem td (cols ! j) = Inr sel \<and> extends syn s1 \<and> extends s2 syn' \<and>
            resolve_row schema (cols ! j) out sel i s1 = (Inr (files ! j ! i), s2))"
proof -
  from read_Inr [OF assms(1,2)] obtain schema s3 where
    g: "get_response syn tid = Inr schema" and
    q: "tableQuery_response syn (select_all tid) = Inr td" and
    e3: "extends syn s3" and
    cl: "columns_loop schema td out (row_limit dl td) cols [] s3 = (Inr files, syn')"
    by blast
  from columns_loop_Inr [OF cl] assms(3) obtain sel s4 s5 where
    len: "length files = length cols" and
    sel: "df_getitem td (cols ! j) = Inr sel" and
    e4: "extends s3 s4" and e5: "extends s5 syn'" and
    rl: "rows_loop schema (cols ! j) out sel (py_range (row_limit dl td)) [] s4 = (Inr (files ! j), s5)"
    by auto
  have i: "i < nat (row_limit dl td)" using assms(4) by simp
  from rows_loop_Inr [OF rl] i obtain s1 s2 where
    len2: "length (files ! j) = nat (row_limit dl td)" and
    e1: "extends s4 s1" and e2: "extends s2 s5" and
    rr: "resolve_row schema (cols ! j) out sel i s1 = (Inr (files ! j ! i), s2)"
    by (auto simp: py_range_def)
  have "extends syn s1" using e3 e4 e1 by (blast intro: extends_trans)
  moreover have "extends s2 syn'" using e2 e5 by (blast intro: extends_trans)
  ultimately show ?thesis using g q sel rr len len2 by blast
qed

lemma read_lengths:
  assumes "read_synapse_table_files tid cols dl out u p syn = (Inr (td, files), syn')"
      and "cols \<noteq> []"
  shows "length files = length cols \<and> list_all (\<lambda>fs. length fs = nat (row_limit dl td)) files"
proof -
  from read_Inr [OF assms(1,2)] obtain schema s3 where
    cl: "columns_loop schema td out (row_limit dl td) cols [] s3 = (Inr files, syn')"
    by blast
  from columns_loop_Inr [OF cl] have len: "length files = length cols"
    by auto
  from columns_loop_Inr [OF cl] have
    each: "\<forall>j<length cols. \<exists>sel s1 s2.
            rows_loop schema (cols ! j) out sel (py_range (row_limit dl td)) [] s1 = (Inr (files ! j), s2)"
    by simp blast
  have "length (files ! j) = nat (row_limit dl td)" if "j < length files" for j
  proof -
    from that len each obtain sel s1 s2 where
      "rows_loop schema (cols ! j) out sel (py_range (row_limit dl td)) [] s1 = (Inr (files ! j), s2)"
      by auto
    from rows_loop_Inr [OF this] show ?thesis by auto
  qed
  then show ?thesis using len by (auto simp: list_all_length)
qed

lemma df_getitem_Series:
  assumes "df_getitem td c = Inr (Series cells)"
  shows "(c, cells) \<in> set (columns td)"
proof -
  from assms obtain x where f: "filter (\<lambda>k. fst k = c) (columns td) = [x]" and x: "snd x = cells"
    by (auto simp: df_getitem_def split: list.splits)
  have "x \<in> set (filter (\<lambda>k. fst k = c) (columns td))" by (simp add: f)
  then have "x \<in> set (columns td)" "fst x = c" by simp_all
  with x show ?thesis by (metis prod.collapse)
qed

lemma df_getitem_Series_length:
  "wf_frame td \<Longrightarrow> df_getitem td c = Inr (Series cells) \<Longrightarrow> length cells = shape0 td"
  using df_getitem_Series [of td c cells]
  by (auto simp: wf_frame_def shape0_def list_all_iff)

lemma np_isnan_error: "np_isnan c = Inl e \<Longrightarrow> e = TypeError"
  by (cases c) simp_all

lemma resolve_row_IndexError:
  "fst (resolve_row schema c out sel i syn) = Inl (IndexError k) \<Longrightarrow>
     \<exists>cells. sel = Series cells \<and> length cells \<le> i"
  by (cases sel)
     (auto dest: np_isnan_error simp: resolve_row_def downloadTableFile_def answer_def and_then_def dict_getitem_def
           split: if_splits sum.splits bool.splits option.splits list.splits)

lemma rows_loop_IndexError:
  "fst (rows_loop schema c out sel rows acc syn) = Inl (IndexError k) \<Longrightarrow>
     \<exists>cells. sel = Series cells \<and> (\<exists>i\<in>set rows. length cells \<le> i)"
proof (induction rows arbitrary: acc syn)
  case Nil
  then show ?case by simp
next
  case (Cons i rest)
  from Cons.prems and_then_fst_Inl
  consider "fst (resolve_row schema c out sel i syn) = Inl (IndexError k)"
    | e s where "fst (rows_loop schema c out sel rest (acc @ [e]) s) = Inl (IndexError k)"
    by fastforce
  then show ?case
  proof cases
    case 1
    from resolve_row_IndexError [OF this] show ?thesis by auto
  next
    case 2
    from Cons.IH [OF this] show ?thesis by auto
  qed
qed

lemma columns_loop_IndexError:
  "fst (columns_loop schema td out lim cs acc syn) = Inl (IndexError k) \<Longrightarrow>
     \<exists>c cells. df_getitem td c = Inr (Series cells) \<and> (\<exists>i\<in>set (py_range lim). length cells \<le> i)"
proof (induction cs arbitrary: acc syn)
  case Nil
  then show ?case by simp
next
  case (Cons c rest)
  from Cons.prems obtain sel where sel: "df_getitem td c = Inr sel"
    by (auto simp: df_getitem_def split: sum.splits list.splits)
  with Cons.prems and_then_fst_Inl
  consider "fst (rows_loop schema c out sel (py_range lim) [] syn) = Inl (IndexError k)"
    | e s where "fst (columns_loop schema td out lim rest (acc @ [e]) s) = Inl (IndexError k)"
    by fastforce
  then show ?case
  proof cases
    case 1
    from rows_loop_IndexError [OF this] sel show ?thesis by blast
  next
    case 2
    from Cons.IH [OF this] show ?thesis .
  qed
qed

lemma read_IndexError:
  assumes "fst (read_synapse_table_files tid cols dl out u p syn) = Inl (IndexError k)"
  shows "\<exists>td c cells. tableQuery_response syn (select_all tid) = Inr td \<and>
           df_getitem td c = Inr (Series cells) \<and>
           (\<exists>i\<in>set (py_range (row_limit dl td)). length cells \<le> i)"
proof -
  from assms obtain schema td s where
    q: "tableQuery_response syn (select_all tid) = Inr td" and
    "fst (and_then (columns_loop schema td out (row_limit dl td) cols [] s)
            (\<lambda>downloaded_files syn. (Inr (td, downloaded_files), syn))) = Inl (IndexError k)"
    by (auto simp: read_synapse_table_files_def login_def get_def tableQuery_def done_or_def
                   answer_def
             split: option.splits sum.splits if_splits)
  then have "fst (columns_loop schema td out (row_limit dl td) cols [] s) = Inl (IndexError k)"
    by (auto dest: and_then_fst_Inl)
  from columns_loop_IndexError [OF this] q show ?thesis by blast
qed

lemma row_limit_not_int:
  "\<not> exact_int dl \<Longrightarrow> row_limit dl td = int (shape0 td)"
  by (cases dl) (simp_all add: row_limit_def)

lemma columns_loop_append:
  "columns_loop schema td out lim (pre @ post) acc syn =
     and_then (columns_loop schema td out lim pre acc syn)
       (\<lambda>fss syn. columns_loop schema td out lim post fss syn)"
proof (induction pre arbitrary: acc syn)
  case Nil
  show ?case by simp
next
  case (Cons c pre)
  have "(\<lambda>fs. columns_loop schema td out lim (pre @ post) (acc @ [fs])) =
        (\<lambda>fs s. and_then (columns_loop schema td out lim pre (acc @ [fs]) s)
                   (\<lambda>fss syn. columns_loop schema td out lim post fss syn))" for acc
    by (intro ext) (rule Cons.IH)
  then show ?case
    by (simp add: and_then_assoc split: sum.splits)
qed

lemma df_getitem_absent:
  "c \<notin> set (column_names_of td) \<Longrightarrow> df_getitem td c = Inl (KeyError (ColumnKey c))"
proof -
  assume "c \<notin> set (column_names_of td)"
  then have "filter (\<lambda>k. fst k = c) (columns td) = []"
    by (auto simp: column_names_of_def filter_empty_conv)
  then show ?thesis by (simp add: df_getitem_def)
qed

lemma df_getitem_Inl:
  "df_getitem td c = Inl e \<Longrightarrow> e = KeyError (ColumnKey c) \<and> c \<notin> set (column_names_of td)"
  by (auto simp: df_getitem_def column_names_of_def filter_empty_conv split: list.splits)

lemma resolve_row_ColumnKey:
  "fst (resolve_row schema c out sel i syn) \<noteq> Inl (KeyError (ColumnKey k))"
  by (cases sel)
     (auto dest: np_isnan_error simp: resolve_row_def downloadTableFile_def answer_def
                 and_then_def dict_getitem_def
           split: if_splits sum.splits bool.splits option.splits list.splits)

lemma rows_loop_ColumnKey:
  "fst (rows_loop schema c out sel rows acc syn) \<noteq> Inl (KeyError (ColumnKey k))"
proof (induction rows arbitrary: acc syn)
  case Nil
  then show ?case by simp
next
  case (Cons i rest)
  show ?case
  proof
    assume "fst (rows_loop schema c out sel (i # rest) acc syn) = Inl (KeyError (ColumnKey k))"
    with and_then_fst_Inl
    consider "fst (resolve_row schema c out sel i syn) = Inl (KeyError (ColumnKey k))"
      | e s where "fst (rows_loop schema c out sel rest (acc @ [e]) s) = Inl (KeyError (ColumnKey k))"
      by fastforce
    then show False using resolve_row_ColumnKey Cons.IH by cases blast+
  qed
qed

lemma columns_loop_ColumnKey:
  "fst (columns_loop schema td out lim cs acc syn) = Inl (KeyError (ColumnKey k)) \<Longrightarrow>
     k \<in> set cs \<and> k \<notin> set (column_names_of td)"
proof (induction cs arbitrary: acc syn)
  case Nil
  then show ?case by simp
next
  case (Cons c rest)
  show ?case
  proof (cases "df_getitem td c")
    case (Inl e)
    with Cons.prems df_getitem_Inl [OF Inl] show ?thesis by simp
  next
    case (Inr sel)
    with Cons.prems and_then_fst_Inl
    consider "fst (rows_loop schema c out sel (py_range lim) [] syn) = Inl (KeyError (ColumnKey k))"
      | e s where "fst (columns_loop schema td out lim rest (acc @ [e]) s) = Inl (KeyError (ColumnKey k))"
      by fastforce
    then show ?thesis
    proof cases
      case 1
      with rows_loop_ColumnKey show ?thesis by blast
    next
      case 2
      from Cons.IH [OF this] show ?thesis by simp
    qed
  qed
qed

lemma read_ColumnKey:
  assumes "fst (read_synapse_table_files tid cols dl out u p syn) = Inl (KeyError (ColumnKey k))"
  shows "\<exists>td. tableQuery_response syn (select_all tid) = Inr td \<and>
           k \<in> set cols \<and> k \<notin> set (column_names_of td)"
proof -
  from assms obtain schema td s where
    q: "tableQuery_response syn (select_all tid) = Inr td" and
    "fst (and_then (columns_loop schema td out (row_limit dl td) cols [] s)
            (\<lambda>downloaded_files syn. (Inr (td, downloaded_files), syn)))
       = Inl (KeyError (ColumnKey k))"
    by (auto simp: read_synapse_table_files_def login_def get_def tableQuery_def done_or_def
                   answer_def
             split: option.splits sum.splits if_splits)
  then have "fst (columns_loop schema td out (row_limit dl td) cols [] s)
               = Inl (KeyError (ColumnKey k))"
    by (auto dest: and_then_fst_Inl)
  from columns_loop_ColumnKey [OF this] q show ?thesis by blast
qed

lemma read_absent_column:
  assumes q: "tableQuery_response syn (select_all tid) = Inr td"
      and c: "c \<notin> set (column_names_of td)"
  shows "fst (read_synapse_table_files tid (pre @ c # rest) dl out u p syn) =
           (case fst (read_synapse_table_files tid pre dl out u p syn) of
              Inl e \<Rightarrow> Inl e
            | Inr r \<Rightarrow> Inl (KeyError (ColumnKey c)))"
proof -
  have stop: "columns_loop schema td out lim (c # rest) fss s = (Inl (KeyError (ColumnKey c)), s)"
    for schema lim fss s
    by (simp add: df_getitem_absent [OF c])
  have loop: "fst (columns_loop schema td out lim (pre @ c # rest) [] s) =
          (case fst (columns_loop schema td out lim pre [] s) of
              Inl e \<Rightarrow> Inl e
            | Inr r \<Rightarrow> Inl (KeyError (ColumnKey c)))" for schema lim s
    by (cases "columns_loop schema td out lim pre [] s";
        cases "fst (columns_loop schema td out lim pre [] s)")
       (auto simp: columns_loop_append stop simp del: columns_loop.simps)
  have fin: "fst (and_then r (\<lambda>a s. (Inr (g a), s))) = (case fst r of Inl e \<Rightarrow> Inl e | Inr a \<Rightarrow> Inr (g a))"
    for r :: "(string option list list) call" and g :: "string option list list \<Rightarrow> frame \<times> string option list list"
    by (cases r; cases "fst r") (auto simp: and_then_def)
  show ?thesis
  proof (cases "login_response syn (credentials u p)")
    case (Some e)
    then show ?thesis
      by (simp add: read_synapse_table_files_def login_def done_or_def)
  next
    case None
    show ?thesis
    proof (cases "get_response syn tid")
      case (Inl e)
      with None show ?thesis
        by (simp add: read_synapse_table_files_def login_def get_def done_or_def answer_def)
    next
      case (Inr schema)
      show ?thesis
      proof (cases "pre = []")
        case True
        with None Inr q show ?thesis
          by (simp add: read_synapse_table_files_def login_def get_def tableQuery_def
                done_or_def answer_def stop del: columns_loop.simps)
      next
        case False
        with None Inr q show ?thesis
          by (simp add: read_synapse_table_files_def login_def get_def tableQuery_def
                done_or_def answer_def loop fin del: columns_loop.simps split: sum.splits)
      qed
    qed
  qed
qed

lemma read_recorded:
  assumes "fst (read_synapse_table_files synapse_table_id column_names download_limit out_path
                  username password syn) = Inr (table_data, downloaded_files)"
      and "column_names \<noteq> []"
      and "j < length column_names"
      and "int irow < row_limit download_limit table_data"
  shows "\<exists>schema cells.
           get_response syn synapse_table_id = Inr schema \<and>
           df_getitem table_data (column_names ! j) = Inr (Series cells) \<and>
           irow < length cells \<and> j < length downloaded_files \<and>
           irow < length (downloaded_files ! j) \<and>
           (cells ! irow = NaN \<longrightarrow> downloaded_files ! j ! irow = None) \<and>
           (cells ! irow \<noteq> NaN \<longrightarrow>
              DownloadTableFile schema irow 0 (column_names ! j) out_path
                \<in> set (log (snd (read_synapse_table_files synapse_table_id column_names
                                   download_limit out_path username password syn))) \<and>
              (\<exists>fileinfo.
                 downloadTableFile_response syn schema irow 0 (column_names ! j) out_path
                   = Inr fileinfo \<and>
                 ((fileinfo = None \<or> fileinfo = Some []) \<and>
                    downloaded_files ! j ! irow = Some ''''
                  \<or> (\<exists>kvs path. fileinfo = Some kvs \<and> kvs \<noteq> [] \<and>
                        map_of kvs ''path'' = Some path \<and>
                        downloaded_files ! j ! irow = Some path))))"
proof -
  let ?run = "read_synapse_table_files synapse_table_id column_names download_limit out_path
                username password syn"
  have run: "?run = (Inr (table_data, downloaded_files), snd ?run)"
    using assms(1) by (metis prod.collapse)
  from read_entry [OF run assms(2,3,4)] obtain schema sel s1 s2 where
    len: "length downloaded_files = length column_names"
         "length (downloaded_files ! j) = nat (row_limit download_limit table_data)" and
    g: "get_response syn synapse_table_id = Inr schema" and
    sel: "df_getitem table_data (column_names ! j) = Inr sel" and
    e1: "extends syn s1" and e2: "extends s2 (snd ?run)" and
    rr: "resolve_row schema (column_names ! j) out_path sel irow s1
           = (Inr (downloaded_files ! j ! irow), s2)"
    by blast
  from resolve_row_Inr [OF rr] obtain cells where
    s: "sel = Series cells" and i: "irow < length cells" and
    nan: "cells ! irow = NaN \<longrightarrow> downloaded_files ! j ! irow = None" and
    num: "cells ! irow \<noteq> NaN \<longrightarrow>
            s2 = sent (DownloadTableFile schema irow 0 (column_names ! j) out_path) s1 \<and>
            (\<exists>fileinfo.
               downloadTableFile_response s1 schema irow 0 (column_names ! j) out_path
                 = Inr fileinfo \<and>
               ((fileinfo = None \<or> fileinfo = Some []) \<and>
                  downloaded_files ! j ! irow = Some ''''
                \<or> (\<exists>kvs path. fileinfo = Some kvs \<and> kvs \<noteq> [] \<and>
                      map_of kvs ''path'' = Some path \<and>
                      downloaded_files ! j ! irow = Some path)))"
    by blast
  have resp: "downloadTableFile_response s1 = downloadTableFile_response syn"
    using e1 by (rule extends_download)
  have logged: "DownloadTableFile schema irow 0 (column_names ! j) out_path \<in> set (log (snd ?run))"
    if "cells ! irow \<noteq> NaN"
  proof -
    from that num have "DownloadTableFile schema irow 0 (column_names ! j) out_path \<in> set (log s2)"
      by simp
    with extends_log [OF e2] show ?thesis by blast
  qed
  have ilen: "irow < length (downloaded_files ! j)"
    using len(2) assms(4) by simp
  show ?thesis
    using g sel s i len(1) assms(3) ilen nan num resp logged
    by (intro exI [of _ schema] exI [of _ cells]) auto
qed

lemma read_recorded_rows:
  assumes "fst (read_synapse_table_files synapse_table_id column_names download_limit out_path
                  username password syn) = Inr (table_data, downloaded_files)"
      and "column_names \<noteq> []"
      and "j < length column_names"
      and "download_limit = PyInt n \<and> int irow < n \<or>
           (\<forall>m. download_limit \<noteq> PyInt m) \<and> irow < shape0 table_data"
  shows "\<exists>schema cells.
           get_response syn synapse_table_id = Inr schema \<and>
           df_getitem table_data (column_names ! j) = Inr (Series cells) \<and>
           irow < length cells \<and> j < length downloaded_files \<and>
           irow < length (downloaded_files ! j) \<and>
           (cells ! irow = NaN \<longrightarrow> downloaded_files ! j ! irow = None) \<and>
           (cells ! irow \<noteq> NaN \<longrightarrow>
              DownloadTableFile schema irow 0 (column_names ! j) out_path
                \<in> set (log (snd (read_synapse_table_files synapse_table_id column_names
                                   download_limit out_path username password syn))) \<and>
              (\<exists>fileinfo.
                 downloadTableFile_response syn schema irow 0 (column_names ! j) out_path
                   = Inr fileinfo \<and>
                 ((fileinfo = None \<or> fileinfo = Some []) \<and>
                    downloaded_files ! j ! irow = Some ''''
                  \<or> (\<exists>kvs path. fileinfo = Some kvs \<and> kvs \<noteq> [] \<and>
                        map_of kvs ''path'' = Some path \<and>
                        downloaded_files ! j ! irow = Some path))))"
proof -
  from assms(4) have "int irow < row_limit download_limit table_data"
    by (cases download_limit) (auto simp: row_limit_def)
  with assms(1,2,3) show ?thesis
    by (rule read_recorded)
qed

lemma resolve_row_returns:
  assumes "i < length cells" and "resolvable_cell syn schema c out (cells ! i) i"
  shows "\<exists>entry syn'. resolve_row schema c out (Series cells) i syn = (Inr entry, syn')"
proof (cases "cells ! i")
  case NaN
  with assms show ?thesis by (simp add: resolve_row_def)
next
  case (Num n)
  with assms show ?thesis
    by (auto simp: resolve_row_def resolvable_cell_def downloadTableFile_def answer_def
                   dict_getitem_def
             split: sum.splits option.splits list.splits)
next
  case (Str s)
  with assms show ?thesis by (simp add: resolvable_cell_def)
qed

lemma resolvable_cell_extends:
  "extends syn syn' \<Longrightarrow>
     resolvable_cell syn' schema c out x i = resolvable_cell syn schema c out x i"
  by (drule extends_download) (simp add: resolvable_cell_def split: cell.splits)

lemma resolvable_column_extends:
  assumes "extends syn syn'"
  shows "resolvable_column syn' schema td out lim = resolvable_column syn schema td out lim"
proof
  fix c
  show "resolvable_column syn' schema td out lim c = resolvable_column syn schema td out lim c"
    by (simp add: resolvable_column_def resolvable_cell_extends [OF assms]
          split: sum.splits selection.splits)
qed

lemma rows_loop_returns:
  "\<forall>i\<in>set rows. i < length cells \<and> resolvable_cell syn schema c out (cells ! i) i \<Longrightarrow>
     \<exists>fs syn'. rows_loop schema c out (Series cells) rows acc syn = (Inr fs, syn')"
proof (induction rows arbitrary: acc syn)
  case Nil
  then show ?case by simp
next
  case (Cons i rest)
  from Cons.prems resolve_row_returns [of i cells syn schema c out] obtain entry s1 where
    step: "resolve_row schema c out (Series cells) i syn = (Inr entry, s1)"
    by auto
  have "extends syn s1" using step by (rule resolve_row_extends)
  with Cons.prems have
    "\<forall>i\<in>set rest. i < length cells \<and> resolvable_cell s1 schema c out (cells ! i) i"
    by (simp add: resolvable_cell_extends)
  from Cons.IH [OF this] step show ?case by simp
qed

lemma rows_loop_SubFrame_returns:
  "rows_loop schema c out (SubFrame cols) [] acc syn = (Inr acc, syn)"
  by simp

lemma column_returns:
  assumes "resolvable_column syn schema td out lim c"
  shows "\<exists>sel fs syn'. df_getitem td c = Inr sel \<and>
           rows_loop schema c out sel (py_range lim) [] syn = (Inr fs, syn')"
proof (cases "df_getitem td c")
  case (Inl e)
  with assms show ?thesis by (simp add: resolvable_column_def)
next
  case (Inr sel)
  show ?thesis
  proof (cases sel)
    case (Series cells)
    with assms Inr have
      "\<forall>i\<in>set (py_range lim). i < length cells \<and> resolvable_cell syn schema c out (cells ! i) i"
      by (auto simp: resolvable_column_def list_all_iff py_range_def)
    from rows_loop_returns [OF this] Inr Series show ?thesis by simp
  next
    case (SubFrame cols)
    with assms Inr have "py_range lim = []"
      by (simp add: resolvable_column_def py_range_def)
    with Inr SubFrame show ?thesis by simp
  qed
qed

lemma columns_loop_returns:
  "list_all (resolvable_column syn schema td out lim) cs \<Longrightarrow>
     \<exists>fss syn'. columns_loop schema td out lim cs acc syn = (Inr fss, syn')"
proof (induction cs arbitrary: acc syn)
  case Nil
  then show ?case by simp
next
  case (Cons c rest)
  from Cons.prems column_returns [of syn schema td out lim c] obtain sel fs s1 where
    sel: "df_getitem td c = Inr sel" and
    step: "rows_loop schema c out sel (py_range lim) [] syn = (Inr fs, s1)"
    by auto
  have "extends syn s1" using rows_loop_Inr [OF step] by simp
  with Cons.prems have "list_all (resolvable_column s1 schema td out lim) rest"
    by (simp add: resolvable_column_extends)
  from Cons.IH [OF this] sel step show ?case by simp
qed

lemma read_returns:
  assumes "login_response syn (credentials u p) = None"
      and "get_response syn tid = Inr schema"
      and "tableQuery_response syn (select_all tid) = Inr td"
      and "list_all (resolvable_column syn schema td out (row_limit dl td)) cols"
  shows "\<exists>files. fst (read_synapse_table_files tid cols dl out u p syn) = Inr (td, files)"
proof -
  let ?s3 = "sent (TableQuery (select_all tid)) (sent (Get tid) (sent (Login (credentials u p)) syn))"
  have "extends syn ?s3"
    by (blast intro: extends_trans extends_sent)
  with assms(4) have "list_all (resolvable_column ?s3 schema td out (row_limit dl td)) cols"
    by (simp add: resolvable_column_extends)
  from columns_loop_returns [OF this] obtain fss s4 where
    "columns_loop schema td out (row_limit dl td) cols [] ?s3 = (Inr fss, s4)"
    by blast
  with assms(1,2,3) show ?thesis
    by (simp add: read_synapse_table_files_def login_def get_def tableQuery_def
          done_or_def answer_def del: columns_loop.simps)
qed

subsection \<open>Column removal and \<^verbatim>\<open>copy_synapse_table\<close>\<close>

lemma contiguous_reset_index: "contiguous (reset_index td)"
  by (simp add: contiguous_def reset_index_def shape0_def)

lemma remove_loop_ok:
  "distinct names \<Longrightarrow> set names \<subseteq> set (column_names_of td) \<Longrightarrow>
     remove_loop td names = Inr (td\<lparr>columns := filter (\<lambda>c. fst c \<notin> set names) (columns td)\<rparr>)"
proof (induction names arbitrary: td)
  case Nil
  then show ?case by simp
next
  case (Cons x rest)
  let ?td = "td\<lparr>columns := filter (\<lambda>c. fst c \<noteq> x) (columns td)\<rparr>"
  have del: "df_delitem td x = Inr ?td" using Cons.prems by (simp add: df_delitem_def)
  have "set (column_names_of ?td) = set (column_names_of td) - {x}"
    by (auto simp: column_names_of_def)
  then have "set rest \<subseteq> set (column_names_of ?td)"
    using Cons.prems by auto
  with Cons.IH [of ?td] Cons.prems
  have "remove_loop ?td rest = Inr (?td\<lparr>columns := filter (\<lambda>c. fst c \<notin> set rest) (columns ?td)\<rparr>)"
    by simp
  moreover have "filter (\<lambda>c. fst c \<notin> set rest) (filter (\<lambda>c. fst c \<noteq> x) (columns td))
                   = filter (\<lambda>c. fst c \<notin> set (x # rest)) (columns td)"
    by (auto intro: filter_cong)
  ultimately show ?case using del by simp
qed

lemma remove_loop_fail:
  "\<not> (distinct names \<and> set names \<subseteq> set (column_names_of td)) \<Longrightarrow>
     \<exists>k\<in>set names. remove_loop td names = Inl (KeyError (ColumnKey k))"
proof (induction names arbitrary: td)
  case Nil
  then show ?case by simp
next
  case (Cons x rest)
  let ?td = "td\<lparr>columns := filter (\<lambda>c. fst c \<noteq> x) (columns td)\<rparr>"
  show ?case
  proof (cases "x \<in> set (column_names_of td)")
    case False
    then show ?thesis by (simp add: df_delitem_def)
  next
    case True
    then have del: "df_delitem td x = Inr ?td" by (simp add: df_delitem_def)
    have names: "set (column_names_of ?td) = set (column_names_of td) - {x}"
      by (auto simp: column_names_of_def)
    have "\<not> (distinct rest \<and> set rest \<subseteq> set (column_names_of ?td))"
      using Cons.prems True names by auto
    from Cons.IH [OF this] del show ?thesis by auto
  qed
qed

lemma remove_loop_Inr:
  "remove_loop td names = Inr td' \<Longrightarrow>
     distinct names \<and> set names \<subseteq> set (column_names_of td) \<and>
     td' = td\<lparr>columns := filter (\<lambda>c. fst c \<notin> set names) (columns td)\<rparr>"
  using remove_loop_fail [of names td] remove_loop_ok [of names td] by auto

lemma remove_loop_guard:
  "(if names \<noteq> [] then remove_loop td names else Inr td) = remove_loop td names"
  by simp

lemma copy_run:
  assumes "login_response syn (credentials u p) = None"
      and "tableQuery_response syn (select_all tid) = Inr td"
  shows "copy_synapse_table tid pid name rc u p syn =
     (case remove_loop td rc of
        Inl e \<Rightarrow> (Inl e, sent (TableQuery (select_all tid)) (sent (Login (credentials u p)) syn))
      | Inr td1 \<Rightarrow>
         (case as_table_columns_response syn (reset_index td1) of
            Inl e \<Rightarrow> (Inl (Collaborator e),
                       sent (TableQuery (select_all tid)) (sent (Login (credentials u p)) syn))
          | Inr cols \<Rightarrow>
              (case store_table_response syn (Schema name cols pid (Some False))
                      (reset_index td1) of
                 Some e \<Rightarrow> Inl (Collaborator e)
               | None \<Rightarrow> Inr (reset_index td1, name, pid),
               sent (StoreTable (Schema name cols pid (Some False)) (reset_index td1))
                 (sent (TableQuery (select_all tid)) (sent (Login (credentials u p)) syn)))))"
  using assms
  by (simp add: copy_synapse_table_def login_def tableQuery_def as_table_columns_def
        store_table_def done_or_def answer_def remove_loop_guard Let_def
      split: sum.splits option.splits)

lemma copy_Inr:
  assumes "fst (copy_synapse_table tid pid name rc u p syn) = Inr (td', name', pid')"
  shows "\<exists>td td1 cols. login_response syn (credentials u p) = None \<and>
           tableQuery_response syn (select_all tid) = Inr td \<and>
           remove_loop td rc = Inr td1 \<and> td' = reset_index td1 \<and> name' = name \<and> pid' = pid \<and>
           as_table_columns_response syn td' = Inr cols \<and>
           log (snd (copy_synapse_table tid pid name rc u p syn)) =
             log syn @ [Login (credentials u p), TableQuery (select_all tid),
                        StoreTable (Schema name cols pid (Some False)) td']"
proof -
  from assms have l: "login_response syn (credentials u p) = None"
    by (auto simp: copy_synapse_table_def login_def done_or_def split: option.splits)
  from assms l obtain td where q: "tableQuery_response syn (select_all tid) = Inr td"
    by (auto simp: copy_synapse_table_def login_def tableQuery_def done_or_def answer_def
             split: sum.splits)
  from assms show ?thesis
    unfolding copy_run [OF l q]
    by (auto simp: l q split: sum.splits option.splits)
qed

lemma copy_columns_kept:
  assumes "fst (copy_synapse_table synapse_table_id synapse_project_id table_name []
                  username password syn) = Inr (table_data, table_name', project_id')"
  shows "\<exists>queried. tableQuery_response syn (select_all synapse_table_id) = Inr queried \<and>
           columns table_data = columns queried \<and>
           column_names_of table_data = column_names_of queried \<and>
           set (column_names_of table_data) = set (column_names_of queried)"
proof -
  from copy_Inr [OF assms] obtain td td1 where
    "tableQuery_response syn (select_all synapse_table_id) = Inr td"
    "remove_loop td [] = Inr td1" "table_data = reset_index td1"
    by blast
  then show ?thesis
    by (auto simp: reset_index_def column_names_of_def)
qed

lemma copy_returns:
  assumes "login_response syn (credentials u p) = None"
      and "tableQuery_response syn (select_all tid) = Inr td"
      and "as_table_columns_response syn (reset_index td) = Inr cols"
      and "store_table_response syn (Schema name cols pid (Some False)) (reset_index td) = None"
  shows "fst (copy_synapse_table tid pid name [] u p syn) = Inr (reset_index td, name, pid)"
  using assms by (simp add: copy_run)

subsection \<open>Writing and concatenating\<close>

lemma stored_tables_append [simp]:
  "stored_tables (xs @ ys) = stored_tables xs @ stored_tables ys"
  by (induction xs rule: stored_tables.induct) simp_all

lemma write_run:
  "write_synapse_table td pid name u p syn =
     (case login_response syn (credentials u p) of
        Some e \<Rightarrow> (Inl (Collaborator e), sent (Login (credentials u p)) syn)
      | None \<Rightarrow>
         (case as_table_columns_response syn (reset_index td) of
            Inl e \<Rightarrow> (Inl (Collaborator e), sent (Login (credentials u p)) syn)
          | Inr cols \<Rightarrow>
              (done_or (store_table_response syn (Schema name cols pid (Some False)) (reset_index td)),
               sent (StoreTable (Schema name cols pid (Some False)) (reset_index td))
                 (sent (Login (credentials u p)) syn))))"
  by (simp add: write_synapse_table_def login_def as_table_columns_def
        store_table_def done_or_def answer_def Let_def
      split: sum.splits option.splits)

lemma concatenate_run:
  "concatenate_tables_to_synapse_table frames pid name u p syn =
     (case login_response syn (credentials u p) of
        Some e \<Rightarrow> (Inl (Collaborator e), sent (Login (credentials u p)) syn)
      | None \<Rightarrow>
         (case pd_concat frames of
            Inl e \<Rightarrow> (Inl e, sent (Login (credentials u p)) syn)
          | Inr td \<Rightarrow>
             (case as_table_columns_response syn td of
                Inl e \<Rightarrow> (Inl (Collaborator e), sent (Login (credentials u p)) syn)
              | Inr cols \<Rightarrow>
                 (case store_table_response syn (Schema name cols pid None) td of
                    Some e \<Rightarrow> Inl (Collaborator e)
                  | None \<Rightarrow> Inr (td, pid),
                  sent (StoreTable (Schema name cols pid None) td)
                    (sent (Login (credentials u p)) syn)))))"
  by (simp add: concatenate_tables_to_synapse_table_def login_def as_table_columns_def
        store_table_def done_or_def answer_def Let_def
      split: sum.splits option.splits)

lemma copy_stores_contiguous:
  "list_all contiguous (stored_tables (drop (length (log syn))
      (log (snd (copy_synapse_table tid pid name rc u p syn)))))"
proof (cases "login_response syn (credentials u p)")
  case (Some e)
  then show ?thesis by (simp add: copy_synapse_table_def login_def done_or_def)
next
  case None
  show ?thesis
  proof (cases "tableQuery_response syn (select_all tid)")
    case (Inl e)
    with None show ?thesis
      by (simp add: copy_synapse_table_def login_def tableQuery_def done_or_def answer_def)
  next
    case (Inr td)
    show ?thesis
      by (simp add: copy_run [OF None Inr] contiguous_reset_index split: sum.splits)
  qed
qed

lemma pd_concat_shared_index:
  "list_all (\<lambda>g. index g = index f) fs \<Longrightarrow>
     pd_concat (f # fs) = Inr \<lparr>index = index f, columns = concat (map columns (f # fs))\<rparr>"
  by (simp add: pd_concat_def)

subsection \<open>Uploading files\<close>

lemma upload_loop_Inr:
  "upload_loop in_files acc syn = (Inr hs, syn') \<Longrightarrow>
     \<exists>ids. hs = acc @ map (\<lambda>h. [h]) ids \<and> length ids = length in_files \<and>
       (\<forall>i<length in_files. \<exists>file_handle.
           chunkedUploadFile_response syn (in_files ! i) = Inr file_handle \<and>
           map_of file_handle ''id'' = Some (ids ! i)) \<and>
       extends syn syn' \<and> log syn' = log syn @ map ChunkedUploadFile in_files"
proof (induction in_files arbitrary: acc syn)
  case Nil
  then show ?case by simp
next
  case (Cons f rest)
  let ?s1 = "sent (ChunkedUploadFile f) syn"
  from Cons.prems obtain fh h where
    up: "chunkedUploadFile_response syn f = Inr fh" and
    h: "map_of fh ''id'' = Some h" and
    loop: "upload_loop rest (acc @ [[h]]) ?s1 = (Inr hs, syn')"
    by (auto simp: chunkedUploadFile_def answer_def dict_getitem_def
             split: sum.splits option.splits)
  from Cons.IH [OF loop] obtain ids where
    hs: "hs = (acc @ [[h]]) @ map (\<lambda>h. [h]) ids" and len: "length ids = length rest" and
    each: "\<forall>i<length rest. \<exists>file_handle.
             chunkedUploadFile_response ?s1 (rest ! i) = Inr file_handle \<and>
             map_of file_handle ''id'' = Some (ids ! i)" and
    ext: "extends ?s1 syn'" and lg: "log syn' = log ?s1 @ map ChunkedUploadFile rest"
    by blast
  have "\<exists>file_handle. chunkedUploadFile_response syn ((f # rest) ! i) = Inr file_handle \<and>
          map_of file_handle ''id'' = Some ((h # ids) ! i)" if "i < length (f # rest)" for i
    using that up h each by (cases i) auto
  moreover have "extends syn syn'"
    using ext extends_sent extends_trans by blast
  ultimately show ?case using hs len lg
    by (intro exI [of _ "h # ids"]) auto
qed

lemma files_to_table_log:
  assumes "fst (files_to_synapse_table in_files synapse_project_id table_name column_name
                  username password syn) = Inr ()"
  shows "\<exists>ids schema.
           length ids = length in_files \<and>
           (\<forall>i<length in_files. \<exists>file_handle.
               chunkedUploadFile_response syn (in_files ! i) = Inr file_handle \<and>
               map_of file_handle ''id'' = Some (ids ! i)) \<and>
           store_schema_response syn
             (Schema table_name [Column column_name ''FILEHANDLEID''] synapse_project_id None)
             = Inr schema \<and>
           log (snd (files_to_synapse_table in_files synapse_project_id table_name column_name
                       username password syn)) =
             log syn @ [Login (credentials username password)] @
             map ChunkedUploadFile in_files @
             [StoreSchema
                (Schema table_name [Column column_name ''FILEHANDLEID''] synapse_project_id None),
              StoreRowSet [Column column_name ''FILEHANDLEID''] schema (map (\<lambda>h. [h]) ids)]"
proof -
  let ?s1 = "sent (Login (credentials username password)) syn"
  let ?hdr = "Column column_name ''FILEHANDLEID''"
  let ?new = "Schema table_name [?hdr] synapse_project_id None"
  from assms have l: "login_response syn (credentials username password) = None"
    by (auto simp: files_to_synapse_table_def login_def done_or_def split: option.splits)
  from assms l obtain hs s2 where up: "upload_loop in_files [] ?s1 = (Inr hs, s2)"
    by (cases "upload_loop in_files [] ?s1"; cases "fst (upload_loop in_files [] ?s1)")
       (auto simp: files_to_synapse_table_def login_def done_or_def)
  from upload_loop_Inr [OF up] obtain ids where
    hs: "hs = map (\<lambda>h. [h]) ids" and len: "length ids = length in_files" and
    each: "\<forall>i<length in_files. \<exists>file_handle.
             chunkedUploadFile_response syn (in_files ! i) = Inr file_handle \<and>
             map_of file_handle ''id'' = Some (ids ! i)" and
    ext: "extends ?s1 s2" and lg: "log s2 = log ?s1 @ map ChunkedUploadFile in_files"
    by auto
  have resp: "store_schema_response s2 = store_schema_response syn"
    using ext by (auto simp: extends_def sent_def)
  from assms l up obtain schema where st: "store_schema_response syn ?new = Inr schema"
    by (auto simp: files_to_synapse_table_def login_def done_or_def store_schema_def answer_def
                   resp Let_def
             split: sum.splits)
  have "log (snd (files_to_synapse_table in_files synapse_project_id table_name column_name
                       username password syn)) =
          log s2 @ [StoreSchema ?new, StoreRowSet [?hdr] schema hs]"
    using l up st
    by (simp add: files_to_synapse_table_def login_def done_or_def store_schema_def answer_def
          store_rowset_def resp Let_def)
  with lg hs len each st show ?thesis
    by (intro exI [of _ ids] exI [of _ schema]) simp
qed

lemma uploadable_sent [simp]: "uploadable (sent r syn) = uploadable syn"
  by (intro ext) (simp add: uploadable_def)

lemma upload_loop_returns:
  "list_all (uploadable syn) in_files \<Longrightarrow>
     \<exists>hs syn'. upload_loop in_files acc syn = (Inr hs, syn')"
proof (induction in_files arbitrary: acc syn)
  case Nil
  then show ?case by simp
next
  case (Cons f rest)
  from Cons.prems obtain fh h where
    up: "chunkedUploadFile_response syn f = Inr fh" and h: "map_of fh ''id'' = Some h"
    by (auto simp: uploadable_def split: sum.splits)
  from Cons.prems have "list_all (uploadable (sent (ChunkedUploadFile f) syn)) rest"
    by simp
  from Cons.IH [OF this] up h show ?case
    by (simp add: chunkedUploadFile_def answer_def dict_getitem_def)
qed

lemma files_to_table_returns:
  assumes "login_response syn (credentials u p) = None"
      and "list_all (uploadable syn) in_files"
      and "store_schema_response syn (Schema name [Column col ''FILEHANDLEID''] pid None) = Inr schema"
      and "\<forall>rows. store_rowset_response syn [Column col ''FILEHANDLEID''] schema rows = None"
  shows "fst (files_to_synapse_table in_files pid name col u p syn) = Inr ()"
proof -
  let ?s1 = "sent (Login (credentials u p)) syn"
  from assms(2) have "list_all (uploadable ?s1) in_files" by simp
  from upload_loop_returns [OF this] obtain hs s2 where
    up: "upload_loop in_files [] ?s1 = (Inr hs, s2)" by blast
  from upload_loop_Inr [OF up] have "extends ?s1 s2" by blast
  then have resp: "store_schema_response s2 = store_schema_response syn"
    "store_rowset_response s2 = store_rowset_response syn"
    by (auto simp: extends_def sent_def)
  show ?thesis
    using assms(1,3,4) up
    by (simp add: files_to_synapse_table_def login_def done_or_def store_schema_def answer_def
          store_rowset_def resp Let_def)
qed

subsection \<open>Runs on the concrete service\<close>

lemma syn0_login: "login_response syn0 (credentials '''' '''') = None"
  by (simp add: syn0_def)

lemma syn0_get: "get_response syn0 ''syn1'' = Inr schema0"
  by (simp add: syn0_def)

lemma syn0_query: "tableQuery_response syn0 (select_all ''syn1'') = Inr frame0"
  by (simp add: syn0_def select_all_def)

lemma syn0_log: "log syn0 = []"
  by (simp add: syn0_def)

lemma audio_run:
  "fst (read_synapse_table_files ''syn1'' [''audio''] PyNone ''/tmp'' '''' '''' syn0)
     = Inr (frame0, [[Some ''/tmp/f0'', None, Some '''']])"
  by code_simp

lemma beyond_run:
  "fst (read_synapse_table_files ''syn1'' [''audio''] (PyInt 4) ''/tmp'' '''' '''' syn0)
     = Inl (IndexError 3)"
  by code_simp

lemma wf_frame0: "wf_frame frame0"
  by (simp add: wf_frame_def frame0_def)

lemma copy_all_run:
  "fst (copy_synapse_table ''syn1'' ''proj'' ''Copy'' [] '''' '''' syn0)
     = Inr (\<lparr>index = [IntLabel 0, IntLabel 1, IntLabel 2],
              columns = [(''audio'', [Num 11, NaN, Num 13]),
                         (''note'', [Str ''a'', Str ''b'', Str ''c''])]\<rparr>, ''Copy'', ''proj'')"
  by code_simp

lemma missing_run:
  "fst (read_synapse_table_files ''syn1'' [''audio'', ''video''] PyNone ''/tmp'' '''' '''' syn0)
     = Inl (KeyError (ColumnKey ''video''))"
  by code_simp

lemma missing_copy_run:
  "fst (copy_synapse_table ''syn1'' ''proj'' ''Copy'' [''video''] '''' '''' syn0)
     = Inl (KeyError (ColumnKey ''video''))"
  by code_simp

lemma names_frame0: "column_names_of frame0 = [''audio'', ''note'']"
  by (simp add: column_names_of_def frame0_def)

lemma joined_run:
  "fst (concatenate_tables_to_synapse_table [df1, df2] ''proj'' ''T'' '''' '''' syn0)
     = Inr (\<lparr>index = [IntLabel 1, IntLabel 2],
              columns = [(''A'', [Str ''A1'', Str ''A2'']), (''E'', [Str ''A5'', Str ''A6'']),
                         (''F'', [Str ''B5'', Str ''B6''])]\<rparr>, ''proj'')"
  by code_simp

lemma wf_df1: "wf_frame df1"
  by (simp add: wf_frame_def df1_def)

lemma wf_df2: "wf_frame df2"
  by (simp add: wf_frame_def df2_def)

lemma upload_run:
  "fst (files_to_synapse_table [''a.wav'', ''b.wav''] ''proj'' ''T'' ''fileID'' ''u'' ''p'' syn0)
     = Inr ()"
  by code_simp

lemma upload_log:
  "log (snd (files_to_synapse_table [''a.wav'', ''b.wav''] ''proj'' ''T'' ''fileID'' ''u'' ''p''
               syn0)) =
     [Login (Some (''u'', ''p'')), ChunkedUploadFile ''a.wav'', ChunkedUploadFile ''b.wav'',
      StoreSchema (Schema ''T'' [Column ''fileID'' ''FILEHANDLEID''] ''proj'' None),
      StoreRowSet [Column ''fileID'' ''FILEHANDLEID'']
        ((Schema ''T'' [Column ''fileID'' ''FILEHANDLEID''] ''proj'' None)\<lparr>schema_id := Some ''syn9''\<rparr>)
        [[''a.wav''], [''b.wav'']]]"
  by code_simp

section \<open>The claims\<close>

text \<open>
  C1. What the code does on a table whose rows the service identifies as 1, 2 and 3
  at version 0 (the client labels them \<^verbatim>\<open>1_0\<close>, \<^verbatim>\<open>2_0\<close>, \<^verbatim>\<open>3_0\<close>), with a file in the
  first and in the third row of the column \<^verbatim>\<open>audio\<close>. The call names the row of each
  download by the loop position, \<^verbatim>\<open>rowId=irow\<close>, at \<^verbatim>\<open>versionNumber=0\<close>: it requests
  the files of the row ids 0 and 2 and records for the first row the path reported for
  row id 0. The files that the two cells reference, those of the row ids 1 and 3, are
  never requested. What is recorded is otherwise as the claim says, for every table
  (lemmas \<open>read_recorded_rows\<close> and \<open>read_returns\<close>).
\<close>

theorem download_by_position:
  "tableQuery_response syn0 (select_all ''syn1'') = Inr frame0 \<and>
   index frame0 = [StrLabel ''1_0'', StrLabel ''2_0'', StrLabel ''3_0''] \<and>
   df_getitem frame0 ''audio'' = Inr (Series [Num 11, NaN, Num 13]) \<and>
   fst (read_synapse_table_files ''syn1'' [''audio''] PyNone ''/tmp'' '''' '''' syn0)
     = Inr (frame0, [[Some ''/tmp/f0'', None, Some '''']]) \<and>
   filter is_download
     (log (snd (read_synapse_table_files ''syn1'' [''audio''] PyNone ''/tmp'' '''' '''' syn0)))
     = [DownloadTableFile schema0 0 0 ''audio'' ''/tmp'',
        DownloadTableFile schema0 2 0 ''audio'' ''/tmp''] \<and>
   DownloadTableFile schema0 1 0 ''audio'' ''/tmp''
     \<notin> set (log (snd (read_synapse_table_files ''syn1'' [''audio''] PyNone ''/tmp''
                         '''' '''' syn0))) \<and>
   DownloadTableFile schema0 3 0 ''audio'' ''/tmp''
     \<notin> set (log (snd (read_synapse_table_files ''syn1'' [''audio''] PyNone ''/tmp''
                         '''' '''' syn0)))"
proof (intro conjI)
  show "tableQuery_response syn0 (select_all ''syn1'') = Inr frame0"
    by (rule syn0_query)
  show "index frame0 = [StrLabel ''1_0'', StrLabel ''2_0'', StrLabel ''3_0'']"
    by (simp add: frame0_def)
  show "df_getitem frame0 ''audio'' = Inr (Series [Num 11, NaN, Num 13])"
    by code_simp
  show "fst (read_synapse_table_files ''syn1'' [''audio''] PyNone ''/tmp'' '''' '''' syn0)
     = Inr (frame0, [[Some ''/tmp/f0'', None, Some '''']])"
    by (rule audio_run)
  show "filter is_download
     (log (snd (read_synapse_table_files ''syn1'' [''audio''] PyNone ''/tmp'' '''' '''' syn0)))
     = [DownloadTableFile schema0 0 0 ''audio'' ''/tmp'',
        DownloadTableFile schema0 2 0 ''audio'' ''/tmp'']"
    by code_simp
  show "DownloadTableFile schema0 1 0 ''audio'' ''/tmp''
     \<notin> set (log (snd (read_synapse_table_files ''syn1'' [''audio''] PyNone ''/tmp''
                         '''' '''' syn0)))"
    by code_simp
  show "DownloadTableFile schema0 3 0 ''audio'' ''/tmp''
     \<notin> set (log (snd (read_synapse_table_files ''syn1'' [''audio''] PyNone ''/tmp''
                         '''' '''' syn0)))"
    by code_simp
qed

text \<open>
  C2, as amended. \<^verbatim>\<open>copy_synapse_table\<close> and \<^verbatim>\<open>write_synapse_table\<close> hand to the store
  call only tables whose row index is 0..N-1, whatever the run does; a run that returns
  has stored exactly one table: the returned one, respectively the input with its
  index reset. \<^verbatim>\<open>concatenate_tables_to_synapse_table\<close> stores exactly the frame that
  \<^verbatim>\<open>pd.concat\<close> produced, and when the inputs share one row index that frame keeps
  this index: it is not renumbered.
\<close>

theorem row_index_before_store:
  "list_all contiguous (stored_tables (drop (length (log syn))
      (log (snd (copy_synapse_table synapse_table_id synapse_project_id table_name
                   remove_columns username password syn))))) \<and>
   (fst (copy_synapse_table synapse_table_id synapse_project_id table_name
           remove_columns username password syn) = Inr (copied, name', project') \<longrightarrow>
      stored_tables (drop (length (log syn))
        (log (snd (copy_synapse_table synapse_table_id synapse_project_id table_name
                     remove_columns username password syn)))) = [copied]) \<and>
   list_all contiguous (stored_tables (drop (length (log syn))
      (log (snd (write_synapse_table table_data synapse_project_id table_name
                   username password syn))))) \<and>
   (fst (write_synapse_table table_data synapse_project_id table_name username password syn)
      = Inr () \<longrightarrow>
      stored_tables (drop (length (log syn))
        (log (snd (write_synapse_table table_data synapse_project_id table_name
                     username password syn)))) = [reset_index table_data]) \<and>
   (fst (concatenate_tables_to_synapse_table frames synapse_project_id table_name
           username password syn) = Inr (joined, project'') \<longrightarrow>
      pd_concat frames = Inr joined \<and>
      stored_tables (drop (length (log syn))
        (log (snd (concatenate_tables_to_synapse_table frames synapse_project_id table_name
                     username password syn)))) = [joined]) \<and>
   (list_all (\<lambda>g. index g = index f) fs \<longrightarrow>
      pd_concat (f # fs) = Inr \<lparr>index = index f, columns = concat (map columns (f # fs))\<rparr>)"
proof (intro conjI impI)
  show "list_all contiguous (stored_tables (drop (length (log syn))
      (log (snd (copy_synapse_table synapse_table_id synapse_project_id table_name
                   remove_columns username password syn)))))"
    by (rule copy_stores_contiguous)
next
  assume "fst (copy_synapse_table synapse_table_id synapse_project_id table_name
           remove_columns username password syn) = Inr (copied, name', project')"
  from copy_Inr [OF this]
  show "stored_tables (drop (length (log syn))
        (log (snd (copy_synapse_table synapse_table_id synapse_project_id table_name
                     remove_columns username password syn)))) = [copied]"
    by auto
next
  show "list_all contiguous (stored_tables (drop (length (log syn))
      (log (snd (write_synapse_table table_data synapse_project_id table_name
                   username password syn)))))"
    by (simp add: write_run contiguous_reset_index split: option.splits sum.splits)
next
  assume "fst (write_synapse_table table_data synapse_project_id table_name username password syn)
      = Inr ()"
  then show "stored_tables (drop (length (log syn))
        (log (snd (write_synapse_table table_data synapse_project_id table_name
                     username password syn)))) = [reset_index table_data]"
    by (auto simp: write_run split: option.splits sum.splits)
next
  assume a: "fst (concatenate_tables_to_synapse_table frames synapse_project_id table_name
           username password syn) = Inr (joined, project'')"
  then show "pd_concat frames = Inr joined"
    by (auto simp: concatenate_run split: option.splits sum.splits)
  from a show "stored_tables (drop (length (log syn))
        (log (snd (concatenate_tables_to_synapse_table frames synapse_project_id table_name
                     username password syn)))) = [joined]"
    by (auto simp: concatenate_run split: option.splits sum.splits)
next
  assume "list_all (\<lambda>g. index g = index f) fs"
  then show "pd_concat (f # fs) = Inr \<lparr>index = index f, columns = concat (map columns (f # fs))\<rparr>"
    by (rule pd_concat_shared_index)
qed

text \<open>
  A copy of the concrete table is stored with the index 0, 1, 2; two frames indexed
  1, 2 are stored, concatenated, with the index 1, 2.
\<close>

theorem row_index_before_store_witness:
  "fst (copy_synapse_table ''syn1'' ''proj'' ''Copy'' [] '''' '''' syn0)
     = Inr (\<lparr>index = [IntLabel 0, IntLabel 1, IntLabel 2],
              columns = [(''audio'', [Num 11, NaN, Num 13]),
                         (''note'', [Str ''a'', Str ''b'', Str ''c''])]\<rparr>, ''Copy'', ''proj'') \<and>
   stored_tables (log (snd (copy_synapse_table ''syn1'' ''proj'' ''Copy'' [] '''' '''' syn0)))
     = [\<lparr>index = [IntLabel 0, IntLabel 1, IntLabel 2],
          columns = [(''audio'', [Num 11, NaN, Num 13]),
                     (''note'', [Str ''a'', Str ''b'', Str ''c''])]\<rparr>] \<and>
   list_all contiguous
     (stored_tables (log (snd (copy_synapse_table ''syn1'' ''proj'' ''Copy'' [] '''' '''' syn0)))) \<and>
   fst (concatenate_tables_to_synapse_table [df1, df2] ''proj'' ''T'' '''' '''' syn0)
     = Inr (\<lparr>index = [IntLabel 1, IntLabel 2],
              columns = [(''A'', [Str ''A1'', Str ''A2'']), (''E'', [Str ''A5'', Str ''A6'']),
                         (''F'', [Str ''B5'', Str ''B6''])]\<rparr>, ''proj'') \<and>
   stored_tables (log (snd (concatenate_tables_to_synapse_table [df1, df2] ''proj'' ''T''
                              '''' '''' syn0)))
     = [\<lparr>index = [IntLabel 1, IntLabel 2],
          columns = [(''A'', [Str ''A1'', Str ''A2'']), (''E'', [Str ''A5'', Str ''A6'']),
                     (''F'', [Str ''B5'', Str ''B6''])]\<rparr>]"
proof -
  let ?copied = "\<lparr>index = [IntLabel 0, IntLabel 1, IntLabel 2],
              columns = [(''audio'', [Num 11, NaN, Num 13]),
                         (''note'', [Str ''a'', Str ''b'', Str ''c''])]\<rparr>"
  let ?joined = "\<lparr>index = [IntLabel 1, IntLabel 2],
              columns = [(''A'', [Str ''A1'', Str ''A2'']), (''E'', [Str ''A5'', Str ''A6'']),
                         (''F'', [Str ''B5'', Str ''B6''])]\<rparr>"
  note t = row_index_before_store [where syn = syn0 and synapse_table_id = "''syn1''"
          and synapse_project_id = "''proj''" and remove_columns = "[]"
          and username = "''''" and password = "''''" and frames = "[df1, df2]"
          and copied = ?copied and joined = ?joined and project'' = "''proj''"
          and project' = "''proj''"]
  note t1 = t [where table_name = "''Copy''" and name' = "''Copy''" and table_data = df1
                 and f = df1 and fs = "[]"]
  note t2 = t [where table_name = "''T''" and name' = "''T''" and table_data = df1
                 and f = df1 and fs = "[]"]
  have c1: "list_all contiguous (stored_tables
              (log (snd (copy_synapse_table ''syn1'' ''proj'' ''Copy'' [] '''' '''' syn0))))"
    using t1 by (simp add: syn0_log)
  have c2: "stored_tables
              (log (snd (copy_synapse_table ''syn1'' ''proj'' ''Copy'' [] '''' '''' syn0)))
            = [?copied]"
    using t1 copy_all_run by (simp add: syn0_log)
  have j2: "stored_tables
              (log (snd (concatenate_tables_to_synapse_table [df1, df2] ''proj'' ''T''
                           '''' '''' syn0)))
            = [?joined]"
    using t2 joined_run by (simp add: syn0_log)
  show ?thesis
    by (intro conjI copy_all_run joined_run c1 c2 j2)
qed

text \<open>
  The claim as stated fails for \<^verbatim>\<open>concatenate_tables_to_synapse_table\<close>: two frames
  with the row index 1, 2 are concatenated and the table handed to the store call
  still has the index 1, 2, which is not 0..N-1. The docstring says so: the indices
  of the original frames are reused.
\<close>

theorem concatenation_keeps_index_counterexample:
  "fst (concatenate_tables_to_synapse_table [df1, df2] ''proj'' ''T'' '''' '''' syn0)
     = Inr (\<lparr>index = [IntLabel 1, IntLabel 2],
              columns = [(''A'', [Str ''A1'', Str ''A2'']), (''E'', [Str ''A5'', Str ''A6'']),
                         (''F'', [Str ''B5'', Str ''B6''])]\<rparr>, ''proj'') \<and>
   stored_tables (log (snd (concatenate_tables_to_synapse_table [df1, df2] ''proj'' ''T''
                              '''' '''' syn0)))
     = [\<lparr>index = [IntLabel 1, IntLabel 2],
          columns = [(''A'', [Str ''A1'', Str ''A2'']), (''E'', [Str ''A5'', Str ''A6'']),
                     (''F'', [Str ''B5'', Str ''B6''])]\<rparr>] \<and>
   \<not> contiguous \<lparr>index = [IntLabel 1, IntLabel 2],
          columns = [(''A'', [Str ''A1'', Str ''A2'']), (''E'', [Str ''A5'', Str ''A6'']),
                     (''F'', [Str ''B5'', Str ''B6''])]\<rparr>"
  by (intro conjI; code_simp)

text \<open>
  C3, as amended. Whenever \<^verbatim>\<open>read_synapse_table_files\<close> returns for a non-empty list
  of file columns, \<^verbatim>\<open>downloaded_files\<close> has one sequence per requested column, in
  order. Each sequence has length \<open>max 0 n\<close> when the limit is the integer \<open>n\<close>
  (so \<open>n\<close> itself when \<open>n\<close> is not negative, and none for a negative \<open>n\<close>), and
  the row count of the dataset when the limit is \<^verbatim>\<open>None\<close>.
\<close>

theorem downloaded_files_shape:
  assumes "fst (read_synapse_table_files synapse_table_id column_names download_limit out_path
                  username password syn) = Inr (table_data, downloaded_files)"
      and "column_names \<noteq> []"
  shows "length downloaded_files = length column_names \<and>
         (\<forall>n. download_limit = PyInt n \<longrightarrow>
              list_all (\<lambda>files_per_column. int (length files_per_column) = max 0 n)
                downloaded_files) \<and>
         (download_limit = PyNone \<longrightarrow>
              list_all (\<lambda>files_per_column. length files_per_column = shape0 table_data)
                downloaded_files)"
proof -
  let ?run = "read_synapse_table_files synapse_table_id column_names download_limit out_path
                username password syn"
  have run: "?run = (Inr (table_data, downloaded_files), snd ?run)"
    using assms(1) by (metis prod.collapse)
  from read_lengths [OF run assms(2)] have
    len: "length downloaded_files = length column_names" and
    each: "list_all (\<lambda>fs. length fs = nat (row_limit download_limit table_data)) downloaded_files"
    by simp_all
  have "list_all (\<lambda>fs. int (length fs) = max 0 n) downloaded_files"
    if "download_limit = PyInt n" for n
    using each that by (auto simp: row_limit_def list_all_iff)
  moreover have "list_all (\<lambda>fs. length fs = shape0 table_data) downloaded_files"
    if "download_limit = PyNone"
    using each that by (simp add: row_limit_def)
  ultimately show ?thesis using len by blast
qed

text \<open>Two requested columns and the limit 2: two sequences of two entries.\<close>

theorem downloaded_files_shape_witness:
  "fst (read_synapse_table_files ''syn1'' [''audio'', ''audio''] (PyInt 2) ''/tmp'' '''' '''' syn0)
     = Inr (frame0, [[Some ''/tmp/f0'', None], [Some ''/tmp/f0'', None]]) \<and>
   [''audio'', ''audio''] \<noteq> [] \<and>
   length [[Some ''/tmp/f0'', None], [Some ''/tmp/f0'', None]] = length [''audio'', ''audio''] \<and>
   list_all (\<lambda>files_per_column. int (length files_per_column) = max 0 2)
     [[Some ''/tmp/f0'', None], [Some ''/tmp/f0'', None]]"
proof -
  have h1: "fst (read_synapse_table_files ''syn1'' [''audio'', ''audio''] (PyInt 2) ''/tmp'' '''' '''' syn0)
     = Inr (frame0, [[Some ''/tmp/f0'', None], [Some ''/tmp/f0'', None]])"
    by code_simp
  have h2: "[''audio'', ''audio''] \<noteq> []" by simp
  from downloaded_files_shape [OF h1 h2] h1 h2 show ?thesis by blast
qed

text \<open>
  The claim as stated fails for a negative integer limit: \<^verbatim>\<open>range(-1)\<close> is empty, the
  call returns, and the one sequence has length 0, not \<open>- 1\<close>.
\<close>

theorem negative_limit_counterexample:
  "fst (read_synapse_table_files ''syn1'' [''audio''] (PyInt (- 1)) ''/tmp'' '''' '''' syn0)
     = Inr (frame0, [[]]) \<and>
   map (\<lambda>files_per_column. int (length files_per_column)) [[] :: string option list] \<noteq> [- 1]"
  by (rule conjI, code_simp, simp)

text \<open>
  C4. Whenever \<^verbatim>\<open>files_to_synapse_table\<close> returns for N input paths, the requests it
  sent are, in this order: the login; one upload per path, in the order of the list,
  each answered with a file handle whose \<^verbatim>\<open>'id'\<close> is the identifier \<open>ids ! i\<close>; one
  schema to store, with the single column \<open>column_name\<close> of type
  \<^verbatim>\<open>FILEHANDLEID\<close>; and one row set under the stored schema with the rows
  \<open>[ids ! 0], ..., [ids ! (N - 1)]\<close>: N rows of one cell, in the order of the paths.
  And the call does return when the service accepts the login, answers every upload
  with a file handle that has an \<^verbatim>\<open>'id'\<close>, stores the schema and accepts the rows.
\<close>

theorem files_to_table:
  "(fst (files_to_synapse_table in_files synapse_project_id table_name column_name
           username password syn) = Inr () \<longrightarrow>
      (\<exists>ids schema.
         length ids = length in_files \<and>
         (\<forall>i<length in_files. \<exists>file_handle.
             chunkedUploadFile_response syn (in_files ! i) = Inr file_handle \<and>
             map_of file_handle ''id'' = Some (ids ! i)) \<and>
         store_schema_response syn
           (Schema table_name [Column column_name ''FILEHANDLEID''] synapse_project_id None)
           = Inr schema \<and>
         log (snd (files_to_synapse_table in_files synapse_project_id table_name column_name
                     username password syn)) =
           log syn @ [Login (credentials username password)] @
           map ChunkedUploadFile in_files @
           [StoreSchema
              (Schema table_name [Column column_name ''FILEHANDLEID''] synapse_project_id None),
            StoreRowSet [Column column_name ''FILEHANDLEID''] schema (map (\<lambda>h. [h]) ids)])) \<and>
   (login_response syn (credentials username password) = None \<and>
    list_all (uploadable syn) in_files \<and>
    store_schema_response syn
      (Schema table_name [Column column_name ''FILEHANDLEID''] synapse_project_id None)
      = Inr stored \<and>
    (\<forall>rows. store_rowset_response syn [Column column_name ''FILEHANDLEID''] stored rows = None)
    \<longrightarrow>
      fst (files_to_synapse_table in_files synapse_project_id table_name column_name
             username password syn) = Inr ())"
proof (intro conjI impI)
  assume "fst (files_to_synapse_table in_files synapse_project_id table_name column_name
           username password syn) = Inr ()"
  then show "\<exists>ids schema.
         length ids = length in_files \<and>
         (\<forall>i<length in_files. \<exists>file_handle.
             chunkedUploadFile_response syn (in_files ! i) = Inr file_handle \<and>
             map_of file_handle ''id'' = Some (ids ! i)) \<and>
         store_schema_response syn
           (Schema table_name [Column column_name ''FILEHANDLEID''] synapse_project_id None)
           = Inr schema \<and>
         log (snd (files_to_synapse_table in_files synapse_project_id table_name column_name
                     username password syn)) =
           log syn @ [Login (credentials username password)] @
           map ChunkedUploadFile in_files @
           [StoreSchema
              (Schema table_name [Column column_name ''FILEHANDLEID''] synapse_project_id None),
            StoreRowSet [Column column_name ''FILEHANDLEID''] schema (map (\<lambda>h. [h]) ids)]"
    by (rule files_to_table_log)
next
  assume a: "login_response syn (credentials username password) = None \<and>
    list_all (uploadable syn) in_files \<and>
    store_schema_response syn
      (Schema table_name [Column column_name ''FILEHANDLEID''] synapse_project_id None)
      = Inr stored \<and>
    (\<forall>rows. store_rowset_response syn [Column column_name ''FILEHANDLEID''] stored rows = None)"
  show "fst (files_to_synapse_table in_files synapse_project_id table_name column_name
             username password syn) = Inr ()"
    by (rule files_to_table_returns [OF a [THEN conjunct1] a [THEN conjunct2, THEN conjunct1]
              a [THEN conjunct2, THEN conjunct2, THEN conjunct1]
              a [THEN conjunct2, THEN conjunct2, THEN conjunct2]])
qed

text \<open>Two files: the run returns, and its log is the one the theorem describes.\<close>

theorem files_to_table_witness:
  "fst (files_to_synapse_table [''a.wav'', ''b.wav''] ''proj'' ''T'' ''fileID'' ''u'' ''p'' syn0)
     = Inr () \<and>
   (\<exists>ids schema.
      length ids = length [''a.wav'', ''b.wav''] \<and>
      log (snd (files_to_synapse_table [''a.wav'', ''b.wav''] ''proj'' ''T'' ''fileID'' ''u'' ''p''
                  syn0)) =
        log syn0 @ [Login (credentials ''u'' ''p'')] @
        map ChunkedUploadFile [''a.wav'', ''b.wav''] @
        [StoreSchema (Schema ''T'' [Column ''fileID'' ''FILEHANDLEID''] ''proj'' None),
         StoreRowSet [Column ''fileID'' ''FILEHANDLEID''] schema (map (\<lambda>h. [h]) ids)]) \<and>
   log (snd (files_to_synapse_table [''a.wav'', ''b.wav''] ''proj'' ''T'' ''fileID'' ''u'' ''p''
               syn0)) =
     [Login (Some (''u'', ''p'')), ChunkedUploadFile ''a.wav'', ChunkedUploadFile ''b.wav'',
      StoreSchema (Schema ''T'' [Column ''fileID'' ''FILEHANDLEID''] ''proj'' None),
      StoreRowSet [Column ''fileID'' ''FILEHANDLEID'']
        ((Schema ''T'' [Column ''fileID'' ''FILEHANDLEID''] ''proj'' None)\<lparr>schema_id := Some ''syn9''\<rparr>)
        [[''a.wav''], [''b.wav'']]] \<and>
   login_response syn0 (credentials ''u'' ''p'') = None \<and>
   list_all (uploadable syn0) [''a.wav'', ''b.wav'']"
proof -
  from files_to_table [THEN conjunct1, THEN mp, OF upload_run] have
    "\<exists>ids schema.
      length ids = length [''a.wav'', ''b.wav''] \<and>
      log (snd (files_to_synapse_table [''a.wav'', ''b.wav''] ''proj'' ''T'' ''fileID'' ''u'' ''p''
                  syn0)) =
        log syn0 @ [Login (credentials ''u'' ''p'')] @
        map ChunkedUploadFile [''a.wav'', ''b.wav''] @
        [StoreSchema (Schema ''T'' [Column ''fileID'' ''FILEHANDLEID''] ''proj'' None),
         StoreRowSet [Column ''fileID'' ''FILEHANDLEID''] schema (map (\<lambda>h. [h]) ids)]"
    by blast
  moreover have "login_response syn0 (credentials ''u'' ''p'') = None"
    by (simp add: syn0_def)
  moreover have "list_all (uploadable syn0) [''a.wav'', ''b.wav'']"
    by code_simp
  ultimately show ?thesis
    by (intro conjI upload_run upload_log)
qed

text \<open>
  C5. For two well-formed frames with K1 and K2 columns and one shared row index of R
  rows, whenever \<^verbatim>\<open>concatenate_tables_to_synapse_table\<close> returns, the dataset it
  returns has K1 + K2 columns (those of the first frame, then those of the second) and
  R rows; and it does return this dataset when the service accepts the login, derives
  the columns and accepts the table.
\<close>

theorem concatenate_two:
  assumes "index f1 = index f2"
      and "shape0 f1 = R" and "shape0 f2 = R"
      and "length (columns f1) = K1" and "length (columns f2) = K2"
      and "wf_frame f1" and "wf_frame f2"
  shows "(fst (concatenate_tables_to_synapse_table [f1, f2] synapse_project_id table_name
                 username password syn) = Inr (table_data, project') \<longrightarrow>
            length (columns table_data) = K1 + K2 \<and> shape0 table_data = R \<and>
            wf_frame table_data \<and> columns table_data = columns f1 @ columns f2 \<and>
            project' = synapse_project_id) \<and>
         (login_response syn (credentials username password) = None \<and>
          as_table_columns_response syn \<lparr>index = index f1, columns = columns f1 @ columns f2\<rparr>
            = Inr cols \<and>
          store_table_response syn (Schema table_name cols synapse_project_id None)
            \<lparr>index = index f1, columns = columns f1 @ columns f2\<rparr> = None \<longrightarrow>
            fst (concatenate_tables_to_synapse_table [f1, f2] synapse_project_id table_name
                   username password syn)
              = Inr (\<lparr>index = index f1, columns = columns f1 @ columns f2\<rparr>,
                     synapse_project_id))"
proof -
  have pc: "pd_concat [f1, f2] = Inr \<lparr>index = index f1, columns = columns f1 @ columns f2\<rparr>"
    using assms(1) by (simp add: pd_concat_def)
  have wf: "wf_frame \<lparr>index = index f1, columns = columns f1 @ columns f2\<rparr>"
    using assms(1,6,7) by (simp add: wf_frame_def)
  show ?thesis
    using assms(2,4,5) wf
    by (auto simp: concatenate_run pc shape0_def split: option.splits sum.splits)
qed

text \<open>Frames of one and of two columns over the index 1, 2: three columns, two rows.\<close>

theorem concatenate_two_witness:
  "index df1 = index df2 \<and> shape0 df1 = 2 \<and> shape0 df2 = 2 \<and>
   length (columns df1) = 1 \<and> length (columns df2) = 2 \<and> wf_frame df1 \<and> wf_frame df2 \<and>
   fst (concatenate_tables_to_synapse_table [df1, df2] ''proj'' ''T'' '''' '''' syn0)
     = Inr (\<lparr>index = [IntLabel 1, IntLabel 2],
              columns = [(''A'', [Str ''A1'', Str ''A2'']), (''E'', [Str ''A5'', Str ''A6'']),
                         (''F'', [Str ''B5'', Str ''B6''])]\<rparr>, ''proj'') \<and>
   length (columns \<lparr>index = [IntLabel 1, IntLabel 2],
              columns = [(''A'', [Str ''A1'', Str ''A2'']), (''E'', [Str ''A5'', Str ''A6'']),
                         (''F'', [Str ''B5'', Str ''B6''])]\<rparr>) = 1 + 2 \<and>
   shape0 \<lparr>index = [IntLabel 1, IntLabel 2],
              columns = [(''A'', [Str ''A1'', Str ''A2'']), (''E'', [Str ''A5'', Str ''A6'']),
                         (''F'', [Str ''B5'', Str ''B6''])]\<rparr> = 2"
proof -
  have h1: "index df1 = index df2" by (simp add: df1_def df2_def)
  have h2: "shape0 df1 = 2" by (simp add: shape0_def df1_def)
  have h3: "shape0 df2 = 2" by (simp add: shape0_def df2_def)
  have h4: "length (columns df1) = 1" by (simp add: df1_def)
  have h5: "length (columns df2) = 2" by (simp add: df2_def)
  note t = concatenate_two [OF h1 h2 h3 h4 h5 wf_df1 wf_df2,
      where synapse_project_id = "''proj''" and table_name = "''T''" and username = "''''"
        and password = "''''" and syn = syn0 and project' = "''proj''"
        and table_data = "\<lparr>index = [IntLabel 1, IntLabel 2],
              columns = [(''A'', [Str ''A1'', Str ''A2'']), (''E'', [Str ''A5'', Str ''A6'']),
                         (''F'', [Str ''B5'', Str ''B6''])]\<rparr>"
        and cols = "[]"]
  from t joined_run have
    "length (columns \<lparr>index = [IntLabel 1, IntLabel 2],
              columns = [(''A'', [Str ''A1'', Str ''A2'']), (''E'', [Str ''A5'', Str ''A6'']),
                         (''F'', [Str ''B5'', Str ''B6''])]\<rparr>) = 1 + 2 \<and>
     shape0 \<lparr>index = [IntLabel 1, IntLabel 2],
              columns = [(''A'', [Str ''A1'', Str ''A2'']), (''E'', [Str ''A5'', Str ''A6'']),
                         (''F'', [Str ''B5'', Str ''B6''])]\<rparr> = 2"
    by blast
  with h1 h2 h3 h4 h5 wf_df1 wf_df2 joined_run show ?thesis by blast
qed

text \<open>
  C6, as amended. Let the query return \<open>table_data\<close>.
  \<^item> If a requested file column \<open>c\<close> is not a column of \<open>table_data\<close>,
    \<^verbatim>\<open>read_synapse_table_files\<close> fails: with the \<^verbatim>\<open>KeyError\<close> of \<open>c\<close> when the call
    on the names before \<open>c\<close> would have returned, and as that call fails otherwise.
  \<^item> If every requested file column is a column of \<open>table_data\<close>, the call never
    fails with the \<^verbatim>\<open>KeyError\<close> of a column.
  \<^item> After a login that is accepted, \<^verbatim>\<open>copy_synapse_table\<close> fails with the
    \<^verbatim>\<open>KeyError\<close> of a name of \<open>remove_columns\<close> when a name is not a column of
    \<open>table_data\<close> or occurs twice in \<open>remove_columns\<close> (its second deletion finds
    the column gone).
  \<^item> If the names of \<open>remove_columns\<close> are distinct columns of \<open>table_data\<close>,
    \<^verbatim>\<open>copy_synapse_table\<close> never fails with a \<^verbatim>\<open>KeyError\<close>.
\<close>

theorem named_columns:
  assumes "tableQuery_response syn (select_all synapse_table_id) = Inr table_data"
  shows "(c \<notin> set (column_names_of table_data) \<longrightarrow>
            fst (read_synapse_table_files synapse_table_id (before @ c # rest) download_limit
                   out_path username password syn) =
              (case fst (read_synapse_table_files synapse_table_id before download_limit
                           out_path username password syn) of
                 Inl e \<Rightarrow> Inl e
               | Inr r \<Rightarrow> Inl (KeyError (ColumnKey c)))) \<and>
         (set column_names \<subseteq> set (column_names_of table_data) \<longrightarrow>
            (\<forall>k. fst (read_synapse_table_files synapse_table_id column_names download_limit
                        out_path username password syn) \<noteq> Inl (KeyError (ColumnKey k)))) \<and>
         (login_response syn (credentials username password) = None \<and>
          \<not> (distinct remove_columns \<and> set remove_columns \<subseteq> set (column_names_of table_data)) \<longrightarrow>
            (\<exists>k\<in>set remove_columns.
               fst (copy_synapse_table synapse_table_id synapse_project_id table_name
                      remove_columns username password syn) = Inl (KeyError (ColumnKey k)))) \<and>
         (distinct remove_columns \<and> set remove_columns \<subseteq> set (column_names_of table_data) \<longrightarrow>
            (\<forall>k. fst (copy_synapse_table synapse_table_id synapse_project_id table_name
                        remove_columns username password syn) \<noteq> Inl (KeyError k)))"
proof (intro conjI impI allI)
  assume "c \<notin> set (column_names_of table_data)"
  with assms show "fst (read_synapse_table_files synapse_table_id (before @ c # rest)
                     download_limit out_path username password syn) =
              (case fst (read_synapse_table_files synapse_table_id before download_limit
                           out_path username password syn) of
                 Inl e \<Rightarrow> Inl e
               | Inr r \<Rightarrow> Inl (KeyError (ColumnKey c)))"
    by (rule read_absent_column)
next
  fix k
  assume sub: "set column_names \<subseteq> set (column_names_of table_data)"
  show "fst (read_synapse_table_files synapse_table_id column_names download_limit
               out_path username password syn) \<noteq> Inl (KeyError (ColumnKey k))"
  proof
    assume "fst (read_synapse_table_files synapse_table_id column_names download_limit
               out_path username password syn) = Inl (KeyError (ColumnKey k))"
    from read_ColumnKey [OF this] assms sub show False by auto
  qed
next
  assume a: "login_response syn (credentials username password) = None \<and>
          \<not> (distinct remove_columns \<and> set remove_columns \<subseteq> set (column_names_of table_data))"
  then obtain k where "k \<in> set remove_columns"
    "remove_loop table_data remove_columns = Inl (KeyError (ColumnKey k))"
    using remove_loop_fail [of remove_columns table_data] by blast
  with a assms show "\<exists>k\<in>set remove_columns.
               fst (copy_synapse_table synapse_table_id synapse_project_id table_name
                      remove_columns username password syn) = Inl (KeyError (ColumnKey k))"
    by (auto simp: copy_run)
next
  fix k
  assume a: "distinct remove_columns \<and> set remove_columns \<subseteq> set (column_names_of table_data)"
  then have ok: "\<exists>td1. remove_loop table_data remove_columns = Inr td1"
    using remove_loop_ok [of remove_columns table_data] by simp
  show "fst (copy_synapse_table synapse_table_id synapse_project_id table_name
               remove_columns username password syn) \<noteq> Inl (KeyError k)"
  proof (cases "login_response syn (credentials username password)")
    case (Some e)
    then show ?thesis
      by (simp add: copy_synapse_table_def login_def done_or_def)
  next
    case None
    with assms ok show ?thesis
      by (auto simp: copy_run split: sum.splits option.splits)
  qed
qed

text \<open>
  On the concrete table: the absent column \<^verbatim>\<open>video\<close> fails both operations with its
  \<^verbatim>\<open>KeyError\<close>, the present column \<^verbatim>\<open>audio\<close> fails neither.
\<close>

theorem named_columns_witness:
  "tableQuery_response syn0 (select_all ''syn1'') = Inr frame0 \<and>
   ''video'' \<notin> set (column_names_of frame0) \<and>
   fst (read_synapse_table_files ''syn1'' ([''audio''] @ ''video'' # []) PyNone ''/tmp'' '''' '''' syn0)
     = Inl (KeyError (ColumnKey ''video'')) \<and>
   set [''audio''] \<subseteq> set (column_names_of frame0) \<and>
   (\<forall>k. fst (read_synapse_table_files ''syn1'' [''audio''] PyNone ''/tmp'' '''' '''' syn0)
          \<noteq> Inl (KeyError (ColumnKey k))) \<and>
   login_response syn0 (credentials '''' '''') = None \<and>
   \<not> (distinct [''video''] \<and> set [''video''] \<subseteq> set (column_names_of frame0)) \<and>
   (\<exists>k\<in>set [''video''].
      fst (copy_synapse_table ''syn1'' ''proj'' ''Copy'' [''video''] '''' '''' syn0)
        = Inl (KeyError (ColumnKey k))) \<and>
   distinct [''audio''] \<and>
   (\<forall>k. fst (copy_synapse_table ''syn1'' ''proj'' ''Copy'' [''audio''] '''' '''' syn0)
          \<noteq> Inl (KeyError k))"
proof -
  note t = named_columns [OF syn0_query, where c = "''video''" and before = "[]" and rest = "[]"
      and column_names = "[''audio'']" and download_limit = PyNone and out_path = "''/tmp''"
      and username = "''''" and password = "''''" and synapse_project_id = "''proj''"
      and table_name = "''Copy''"]
  have 1: "fst (read_synapse_table_files ''syn1'' ([''audio''] @ ''video'' # []) PyNone ''/tmp'' '''' '''' syn0)
     = Inl (KeyError (ColumnKey ''video''))"
    using missing_run by simp
  have 2: "\<forall>k. fst (read_synapse_table_files ''syn1'' [''audio''] PyNone ''/tmp'' '''' '''' syn0)
          \<noteq> Inl (KeyError (ColumnKey k))"
    using t [where remove_columns = "[]"]
    by (simp add: names_frame0)
  have 3: "\<exists>k\<in>set [''video''].
      fst (copy_synapse_table ''syn1'' ''proj'' ''Copy'' [''video''] '''' '''' syn0)
        = Inl (KeyError (ColumnKey k))"
    using t [where remove_columns = "[''video'']"] syn0_login
    by (simp add: names_frame0)
  have 4: "\<forall>k. fst (copy_synapse_table ''syn1'' ''proj'' ''Copy'' [''audio''] '''' '''' syn0)
          \<noteq> Inl (KeyError k)"
    using t [where remove_columns = "[''audio'']"]
    by (simp add: names_frame0)
  show ?thesis
    using 1 2 3 4 syn0_query syn0_login by (simp add: names_frame0)
qed

text \<open>
  The claim as stated fails for \<^verbatim>\<open>copy_synapse_table\<close> when a name is listed twice:
  \<^verbatim>\<open>audio\<close> is a column of the queried dataset, so every named column is present,
  and the second \<^verbatim>\<open>del\<close> raises the \<^verbatim>\<open>KeyError\<close> of \<^verbatim>\<open>audio\<close>.
\<close>

theorem repeated_removal_counterexample:
  "tableQuery_response syn0 (select_all ''syn1'') = Inr frame0 \<and>
   set [''audio'', ''audio''] \<subseteq> set (column_names_of frame0) \<and>
   fst (copy_synapse_table ''syn1'' ''proj'' ''Copy'' [''audio'', ''audio''] '''' '''' syn0)
     = Inl (KeyError (ColumnKey ''audio''))"
proof (intro conjI)
  show "tableQuery_response syn0 (select_all ''syn1'') = Inr frame0" by (rule syn0_query)
  show "set [''audio'', ''audio''] \<subseteq> set (column_names_of frame0)"
    by (simp add: names_frame0)
  show "fst (copy_synapse_table ''syn1'' ''proj'' ''Copy'' [''audio'', ''audio''] '''' '''' syn0)
     = Inl (KeyError (ColumnKey ''audio''))"
    by code_simp
qed

text \<open>
  C7. The row loop runs over \<^verbatim>\<open>range(download_limit)\<close> and nothing compares the limit
  with the row count of the dataset. For a well-formed query result and an integer
  limit \<open>0 \<le> n \<le> shape0 table_data\<close>, no row access is out of bounds: the call
  never fails with an \<^verbatim>\<open>IndexError\<close>. With a limit beyond the row count and a
  non-empty list of file columns the call never returns a result.
\<close>

theorem row_access_in_bounds:
  assumes "tableQuery_response syn (select_all synapse_table_id) = Inr table_data"
      and "wf_frame table_data"
  shows "(0 \<le> n \<and> n \<le> int (shape0 table_data) \<longrightarrow>
            (\<forall>k. fst (read_synapse_table_files synapse_table_id column_names (PyInt n)
                        out_path username password syn) \<noteq> Inl (IndexError k))) \<and>
         (int (shape0 table_data) < n \<and> column_names \<noteq> [] \<longrightarrow>
            (\<forall>r. fst (read_synapse_table_files synapse_table_id column_names (PyInt n)
                        out_path username password syn) \<noteq> Inr r))"
proof (intro conjI impI allI)
  fix k
  let ?run = "read_synapse_table_files synapse_table_id column_names (PyInt n)
                out_path username password syn"
  assume n: "0 \<le> n \<and> n \<le> int (shape0 table_data)"
  show "fst ?run \<noteq> Inl (IndexError k)"
  proof
    assume "fst ?run = Inl (IndexError k)"
    from read_IndexError [OF this] assms(1) obtain c cells i where
      "df_getitem table_data c = Inr (Series cells)" and
      "i \<in> set (py_range (row_limit (PyInt n) table_data))" and "length cells \<le> i"
      by auto
    with df_getitem_Series_length [OF assms(2)] n show False
      by (auto simp: py_range_def row_limit_def)
  qed
next
  fix r
  let ?run = "read_synapse_table_files synapse_table_id column_names (PyInt n)
                out_path username password syn"
  assume n: "int (shape0 table_data) < n \<and> column_names \<noteq> []"
  show "fst ?run \<noteq> Inr r"
  proof
    assume r: "fst ?run = Inr r"
    obtain td files where rr: "r = (td, files)" by (cases r)
    with r have run: "?run = (Inr (td, files), snd ?run)"
      by (metis prod.collapse)
    have j: "0 < length column_names" using n by simp
    have i: "int (shape0 table_data) < row_limit (PyInt n) td"
      using n by (simp add: row_limit_def)
    from read_entry [OF run _ j i] n assms(1) obtain schema sel s1 s2 where
      td: "td = table_data" and
      sel: "df_getitem td (column_names ! 0) = Inr sel" and
      rr: "resolve_row schema (column_names ! 0) out_path sel (shape0 table_data) s1
             = (Inr (files ! 0 ! shape0 table_data), s2)"
      by auto
    from resolve_row_Inr [OF rr] obtain cells where
      "sel = Series cells" "shape0 table_data < length cells" by blast
    with sel td df_getitem_Series_length [OF assms(2)] show False by auto
  qed
qed

text \<open>
  Three rows: with the limit 3 there is no \<^verbatim>\<open>IndexError\<close>; with the limit 4 the
  call fails, here with the \<^verbatim>\<open>IndexError\<close> of row 3.
\<close>

theorem row_access_in_bounds_witness:
  "tableQuery_response syn0 (select_all ''syn1'') = Inr frame0 \<and> wf_frame frame0 \<and>
   (0::int) \<le> 3 \<and> 3 \<le> int (shape0 frame0) \<and>
   (\<forall>k. fst (read_synapse_table_files ''syn1'' [''audio''] (PyInt 3) ''/tmp'' '''' '''' syn0)
          \<noteq> Inl (IndexError k)) \<and>
   int (shape0 frame0) < 4 \<and> [''audio''] \<noteq> [] \<and>
   (\<forall>r. fst (read_synapse_table_files ''syn1'' [''audio''] (PyInt 4) ''/tmp'' '''' '''' syn0)
          \<noteq> Inr r) \<and>
   fst (read_synapse_table_files ''syn1'' [''audio''] (PyInt 4) ''/tmp'' '''' '''' syn0)
     = Inl (IndexError 3)"
proof -
  have s: "shape0 frame0 = 3" by (simp add: shape0_def frame0_def)
  from row_access_in_bounds [OF syn0_query wf_frame0, of 3 "[''audio'']" "''/tmp''" "''''" "''''"]
       row_access_in_bounds [OF syn0_query wf_frame0, of 4 "[''audio'']" "''/tmp''" "''''" "''''"]
       syn0_query wf_frame0 s beyond_run
  show ?thesis by simp
qed

text \<open>
  C8. Whenever \<^verbatim>\<open>copy_synapse_table\<close> returns for an empty \<open>remove_columns\<close>, the
  dataset it returns has the columns of the query result: the same names, in the
  same order, with the same cells. And the call does return, with the query result
  under the row index 0..N-1, when the service accepts the login, answers the query,
  derives the columns and accepts the table.
\<close>

theorem copy_without_removal:
  "(fst (copy_synapse_table synapse_table_id synapse_project_id table_name []
           username password syn) = Inr (table_data, table_name', project_id') \<longrightarrow>
      (\<exists>queried. tableQuery_response syn (select_all synapse_table_id) = Inr queried \<and>
         columns table_data = columns queried \<and>
         column_names_of table_data = column_names_of queried \<and>
         set (column_names_of table_data) = set (column_names_of queried))) \<and>
   (login_response syn (credentials username password) = None \<and>
    tableQuery_response syn (select_all synapse_table_id) = Inr queried' \<and>
    as_table_columns_response syn (reset_index queried') = Inr cols \<and>
    store_table_response syn (Schema table_name cols synapse_project_id (Some False))
      (reset_index queried') = None \<longrightarrow>
      fst (copy_synapse_table synapse_table_id synapse_project_id table_name []
             username password syn) = Inr (reset_index queried', table_name, synapse_project_id))"
proof (intro conjI impI)
  assume "fst (copy_synapse_table synapse_table_id synapse_project_id table_name []
           username password syn) = Inr (table_data, table_name', project_id')"
  then show "\<exists>queried. tableQuery_response syn (select_all synapse_table_id) = Inr queried \<and>
         columns table_data = columns queried \<and>
         column_names_of table_data = column_names_of queried \<and>
         set (column_names_of table_data) = set (column_names_of queried)"
    by (rule copy_columns_kept)
next
  assume a: "login_response syn (credentials username password) = None \<and>
    tableQuery_response syn (select_all synapse_table_id) = Inr queried' \<and>
    as_table_columns_response syn (reset_index queried') = Inr cols \<and>
    store_table_response syn (Schema table_name cols synapse_project_id (Some False))
      (reset_index queried') = None"
  show "fst (copy_synapse_table synapse_table_id synapse_project_id table_name []
             username password syn) = Inr (reset_index queried', table_name, synapse_project_id)"
    by (rule copy_returns [OF a [THEN conjunct1] a [THEN conjunct2, THEN conjunct1]
              a [THEN conjunct2, THEN conjunct2, THEN conjunct1]
              a [THEN conjunct2, THEN conjunct2, THEN conjunct2]])
qed

text \<open>The copy of the concrete table has its two columns.\<close>

theorem copy_without_removal_witness:
  "fst (copy_synapse_table ''syn1'' ''proj'' ''Copy'' [] '''' '''' syn0)
     = Inr (\<lparr>index = [IntLabel 0, IntLabel 1, IntLabel 2],
              columns = [(''audio'', [Num 11, NaN, Num 13]),
                         (''note'', [Str ''a'', Str ''b'', Str ''c''])]\<rparr>, ''Copy'', ''proj'') \<and>
   tableQuery_response syn0 (select_all ''syn1'') = Inr frame0 \<and>
   column_names_of \<lparr>index = [IntLabel 0, IntLabel 1, IntLabel 2],
              columns = [(''audio'', [Num 11, NaN, Num 13]),
                         (''note'', [Str ''a'', Str ''b'', Str ''c''])]\<rparr>
     = column_names_of frame0 \<and>
   login_response syn0 (credentials '''' '''') = None"
proof -
  from copy_without_removal [THEN conjunct1, THEN mp, OF copy_all_run] syn0_query
  have "column_names_of \<lparr>index = [IntLabel 0, IntLabel 1, IntLabel 2],
              columns = [(''audio'', [Num 11, NaN, Num 13]),
                         (''note'', [Str ''a'', Str ''b'', Str ''c''])]\<rparr>
     = column_names_of frame0"
    by auto
  then show ?thesis
    by (intro conjI copy_all_run syn0_query syn0_login)
qed

text \<open>
  C9. With an empty list of file columns, and a service that answers the login, the
  schema request and the query, \<^verbatim>\<open>read_synapse_table_files\<close> returns the whole queried
  dataset with an empty list of downloaded-file sequences. The only requests it sends
  are the login, the schema request and the query: no file is downloaded.
\<close>

theorem read_without_file_columns:
  assumes "login_response syn (credentials username password) = None"
      and "get_response syn synapse_table_id = Inr schema"
      and "tableQuery_response syn (select_all synapse_table_id) = Inr table_data"
  shows "fst (read_synapse_table_files synapse_table_id [] download_limit out_path
                username password syn) = Inr (table_data, []) \<and>
         log (snd (read_synapse_table_files synapse_table_id [] download_limit out_path
                username password syn)) =
           log syn @ [Login (credentials username password), Get synapse_table_id,
                      TableQuery (select_all synapse_table_id)] \<and>
         filter is_download (log (snd (read_synapse_table_files synapse_table_id []
                download_limit out_path username password syn))) =
           filter is_download (log syn)"
  using assms
  by (simp add: read_synapse_table_files_def login_def get_def tableQuery_def
        done_or_def answer_def)

text \<open>The scenario of the specification on the concrete service.\<close>

theorem read_without_file_columns_witness:
  "login_response syn0 (credentials '''' '''') = None \<and>
   get_response syn0 ''syn1'' = Inr schema0 \<and>
   tableQuery_response syn0 (select_all ''syn1'') = Inr frame0 \<and>
   fst (read_synapse_table_files ''syn1'' [] PyNone ''/tmp'' '''' '''' syn0) = Inr (frame0, []) \<and>
   log (snd (read_synapse_table_files ''syn1'' [] PyNone ''/tmp'' '''' '''' syn0)) =
     [Login None, Get ''syn1'', TableQuery ''select * from syn1'']"
  using read_without_file_columns [OF syn0_login syn0_get syn0_query, of PyNone "''/tmp''"]
    syn0_login syn0_get syn0_query syn0_log
  by (simp add: credentials_def select_all_def)

text \<open>
  C10. A \<^verbatim>\<open>download_limit\<close> whose type is not exactly \<^verbatim>\<open>int\<close> (\<^verbatim>\<open>None\<close>, a bool, a
  float, a string) gives the very run that the row count of the queried dataset gives
  as an integer limit, so every sequence of a returned result has one entry per row.
  An integer limit \<open>n\<close> bounds the loop: every sequence has \<open>nat n\<close> entries, however
  many rows the dataset has.
\<close>

theorem download_limit_exact_int:
  "(\<not> exact_int download_limit \<and>
      tableQuery_response syn (select_all synapse_table_id) = Inr table_data \<longrightarrow>
      read_synapse_table_files synapse_table_id column_names download_limit out_path
        username password syn
      = read_synapse_table_files synapse_table_id column_names
          (PyInt (int (shape0 table_data))) out_path username password syn) \<and>
   (\<not> exact_int download_limit \<and> column_names \<noteq> [] \<and>
      fst (read_synapse_table_files synapse_table_id column_names download_limit out_path
             username password syn) = Inr (table_data, downloaded_files) \<longrightarrow>
      list_all (\<lambda>files_per_column. length files_per_column = shape0 table_data)
        downloaded_files) \<and>
   (column_names \<noteq> [] \<and>
      fst (read_synapse_table_files synapse_table_id column_names (PyInt n) out_path
             username password syn) = Inr (table_data, downloaded_files) \<longrightarrow>
      list_all (\<lambda>files_per_column. length files_per_column = nat n) downloaded_files)"
proof (intro conjI impI)
  assume a: "\<not> exact_int download_limit \<and>
      tableQuery_response syn (select_all synapse_table_id) = Inr table_data"
  then have "row_limit download_limit table_data
               = row_limit (PyInt (int (shape0 table_data))) table_data"
    by (simp add: row_limit_not_int) (simp add: row_limit_def)
  with a show "read_synapse_table_files synapse_table_id column_names download_limit out_path
        username password syn
      = read_synapse_table_files synapse_table_id column_names
          (PyInt (int (shape0 table_data))) out_path username password syn"
    by (cases "login_response syn (credentials username password)";
        cases "get_response syn synapse_table_id")
       (simp_all add: read_synapse_table_files_def login_def get_def tableQuery_def
          done_or_def answer_def)
next
  let ?run = "read_synapse_table_files synapse_table_id column_names download_limit out_path
                username password syn"
  assume a: "\<not> exact_int download_limit \<and> column_names \<noteq> [] \<and>
      fst ?run = Inr (table_data, downloaded_files)"
  then have run: "?run = (Inr (table_data, downloaded_files), snd ?run)"
    by (metis prod.collapse)
  from read_lengths [OF run] a
  show "list_all (\<lambda>files_per_column. length files_per_column = shape0 table_data)
          downloaded_files"
    by (simp add: row_limit_not_int)
next
  let ?run = "read_synapse_table_files synapse_table_id column_names (PyInt n) out_path
                username password syn"
  assume a: "column_names \<noteq> [] \<and> fst ?run = Inr (table_data, downloaded_files)"
  then have run: "?run = (Inr (table_data, downloaded_files), snd ?run)"
    by (metis prod.collapse)
  from read_lengths [OF run] a
  show "list_all (\<lambda>files_per_column. length files_per_column = nat n) downloaded_files"
    by (simp add: row_limit_def)
qed

text \<open>The limit \<^verbatim>\<open>True\<close> on the three-row table runs as the limit 3 does.\<close>

theorem download_limit_exact_int_witness:
  "\<not> exact_int (PyBool True) \<and>
   tableQuery_response syn0 (select_all ''syn1'') = Inr frame0 \<and>
   read_synapse_table_files ''syn1'' [''audio''] (PyBool True) ''/tmp'' '''' '''' syn0
     = read_synapse_table_files ''syn1'' [''audio''] (PyInt 3) ''/tmp'' '''' '''' syn0 \<and>
   fst (read_synapse_table_files ''syn1'' [''audio''] (PyBool True) ''/tmp'' '''' '''' syn0)
     = Inr (frame0, [[Some ''/tmp/f0'', None, Some '''']]) \<and>
   list_all (\<lambda>files_per_column. length files_per_column = shape0 frame0)
     [[Some ''/tmp/f0'', None, Some '''']]"
proof -
  have h1: "\<not> exact_int (PyBool True)" by simp
  have h3: "fst (read_synapse_table_files ''syn1'' [''audio''] (PyBool True) ''/tmp'' '''' '''' syn0)
     = Inr (frame0, [[Some ''/tmp/f0'', None, Some '''']])"
    by code_simp
  have h4: "[''audio''] \<noteq> []" by simp
  have s: "int (shape0 frame0) = 3" by (simp add: shape0_def frame0_def)
  from download_limit_exact_int [of "PyBool True" syn0 "''syn1''" frame0 "[''audio'']"
         "''/tmp''" "''''" "''''" "[[Some ''/tmp/f0'', None, Some '''']]"]
       h1 syn0_query h3 h4 s
  show ?thesis by simp
qed

end
